theory Spec2Isabelle
  imports Complex_Main "HOL-Library.AList" "HOL-Library.Sublist"
begin

section \<open>Python values used by the solver layer\<close>

text \<open>
  Exceptions are values. \<open>ValueError\<close> is what every \<^verbatim>\<open>raise\<close> of
  \<^verbatim>\<open>solver.py\<close> raises, \<open>KeyError\<close> is what a failed dictionary lookup
  \<^verbatim>\<open>vars_map[name]\<close> raises, and \<open>LibraryError\<close> stands for any exception that
  the external CP-SAT library raises during \<^verbatim>\<open>solver.Solve\<close>, with its message.
\<close>

datatype exn = ValueError string | KeyError string | LibraryError string

text \<open>
  \<^verbatim>\<open>str(exc)\<close>: the message of a \<open>ValueError\<close>; for a \<open>KeyError\<close> it is
  Python's \<^verbatim>\<open>repr\<close> of the key, which is taken as the parameter \<open>py_repr\<close>.
\<close>

fun str_exc :: "(string \<Rightarrow> string) \<Rightarrow> exn \<Rightarrow> string" where
  "str_exc py_repr (ValueError msg) = msg"
| "str_exc py_repr (KeyError k) = py_repr k"
| "str_exc py_repr (LibraryError msg) = msg"

text \<open>Decimal rendering of integers, as an f-string interpolates them.\<close>

definition digit_char :: "nat \<Rightarrow> char" where
  "digit_char d = ''0123456789'' ! d"

function str_nat :: "nat \<Rightarrow> string" where
  "str_nat n = (if n < 10 then [digit_char n] else str_nat (n div 10) @ [digit_char (n mod 10)])"
  by pat_completeness auto
termination
  by (relation "measure id") auto

declare str_nat.simps [simp del]

definition str_int :: "int \<Rightarrow> string" where
  "str_int i = (if i < 0 then ''-'' @ str_nat (nat (- i)) else str_nat (nat i))"

section \<open>The request and response models (models.py)\<close>

text \<open>
  The \<^verbatim>\<open>Literal[...]\<close> fields are datatypes: pydantic rejects any other string
  when the request is built, so the \<^verbatim>\<open>else\<close> / \<^verbatim>\<open>case _\<close> branches of the
  solver for an unknown variable type, constraint type or linear operator cannot be
  reached and have no counterpart below. Optional fields are \<open>option\<close>s.
\<close>

datatype var_kind = VBool | VInt | VInterval

record variable =
  var_type :: var_kind
  var_name :: string
  var_min :: "int option"
  var_max :: "int option"
  var_start :: "int option"
  var_end :: "int option"
  var_size :: "int option"
  var_presenceVar :: "string option"

record lterm =
  term_var :: string
  term_coeff :: int

datatype cmp_op = OpLe | OpGe | OpEq

fun str_op :: "cmp_op \<Rightarrow> string" where
  "str_op OpLe = ''<=''"
| "str_op OpGe = ''>=''"
| "str_op OpEq = ''==''"

datatype constraint_kind =
  Linear | SoftLinear | ExactlyOne | AtMostOne | Implication | BoolOr | BoolAnd | NoOverlap

record constraint =
  c_type :: constraint_kind
  c_terms :: "lterm list option"
  c_op :: "cmp_op option"
  c_rhs :: "int option"
  c_penalty :: "int option"
  c_vars :: "string list option"
  c_intervals :: "string list option"
  c_if :: "string option"
  c_then :: "string option"
  c_id :: "string option"

datatype sense = minimize | maximize

record objective =
  obj_sense :: sense
  obj_terms :: "lterm list"

record options =
  timeLimitSeconds :: real
  solutionLimit :: "int option"

record solver_request =
  req_variables :: "variable list"
  req_constraints :: "constraint list"
  req_objective :: "objective option"
  req_options :: "options option"

record soft_constraint_violation =
  constraintId :: string
  violationAmount :: int
  targetValue :: int
  actualValue :: int

text \<open>
  A statistics entry is an \<^verbatim>\<open>int | float\<close>. Floats are carried as reals: they are
  only passed through from the oracle, no property below depends on their arithmetic.
\<close>

datatype stat = IntStat int | FloatStat real

text \<open>Python dictionaries are association lists in insertion order, with
  \<open>AList.update\<close> as item assignment and \<open>map_of\<close> as lookup.\<close>

record solver_response =
  resp_status :: string
  resp_values :: "(string \<times> int) list option"
  resp_statistics :: "(string \<times> stat) list option"
  resp_error :: "string option"
  resp_solutionInfo :: "string option"
  resp_softViolations :: "soft_constraint_violation list option"

section \<open>The oracle's model builder (the interface of cp_model used by solver.py)\<close>

text \<open>
  The CP-SAT library is external. Its model builder is a recorder: a model is the list
  of integer variables, the list of interval variables, the list of constraints and at
  most one objective that the calls declared, and a variable handle is the position of
  the variable in the model. Linear expressions are syntax trees built by the
  overloaded \<^verbatim>\<open>+\<close>, \<^verbatim>\<open>-\<close> and \<^verbatim>\<open>*\<close>; \<open>eval_expr\<close> gives their value
  under an assignment of the handles. The constants of \<^verbatim>\<open>NewConstant\<close> are kept
  in the interval itself. The builder calls are taken to accept their arguments: what
  the library itself checks (and when) is not part of solver.py.
\<close>

datatype lin_expr =
  Const int | Var nat | Mul lin_expr int | Add lin_expr lin_expr
  | Sub lin_expr lin_expr | Neg lin_expr


record int_var =
  iv_lb :: int
  iv_ub :: int
  iv_name :: string

record interval_var =
  itv_start :: int
  itv_size :: int
  itv_end :: int
  itv_presence :: "nat option"
  itv_name :: string

datatype native_constraint =
  AddLe lin_expr lin_expr
  | AddGe lin_expr lin_expr
  | AddEq lin_expr lin_expr
  | AddExactlyOne "nat list"
  | AddAtMostOne "nat list"
  | AddImplication nat nat
  | AddBoolOr "nat list"
  | AddBoolAnd "nat list"
  | AddNoOverlap "nat list"

datatype native_objective = Minimize lin_expr | Maximize lin_expr

record cp_model =
  m_variables :: "int_var list"
  m_intervals :: "interval_var list"
  m_constraints :: "native_constraint list"
  m_objective :: "native_objective option"

definition CpModel :: cp_model where
  "CpModel = \<lparr>m_variables = [], m_intervals = [], m_constraints = [], m_objective = None\<rparr>"

definition NewIntVar :: "int \<Rightarrow> int \<Rightarrow> string \<Rightarrow> cp_model \<Rightarrow> nat \<times> cp_model" where
  "NewIntVar lb ub name model =
     (length (m_variables model),
      model\<lparr>m_variables := m_variables model @ [\<lparr>iv_lb = lb, iv_ub = ub, iv_name = name\<rparr>]\<rparr>)"

definition NewBoolVar :: "string \<Rightarrow> cp_model \<Rightarrow> nat \<times> cp_model" where
  "NewBoolVar name model = NewIntVar 0 1 name model"

definition NewIntervalVar :: "int \<Rightarrow> int \<Rightarrow> int \<Rightarrow> string \<Rightarrow> cp_model \<Rightarrow> nat \<times> cp_model" where
  "NewIntervalVar start sz end name model =
     (length (m_intervals model),
      model\<lparr>m_intervals := m_intervals model @
        [\<lparr>itv_start = start, itv_size = sz, itv_end = end, itv_presence = None,
          itv_name = name\<rparr>]\<rparr>)"

definition NewOptionalIntervalVar ::
  "int \<Rightarrow> int \<Rightarrow> int \<Rightarrow> nat \<Rightarrow> string \<Rightarrow> cp_model \<Rightarrow> nat \<times> cp_model" where
  "NewOptionalIntervalVar start sz end presence name model =
     (length (m_intervals model),
      model\<lparr>m_intervals := m_intervals model @
        [\<lparr>itv_start = start, itv_size = sz, itv_end = end, itv_presence = Some presence,
          itv_name = name\<rparr>]\<rparr>)"

definition model_Add :: "native_constraint \<Rightarrow> cp_model \<Rightarrow> cp_model" where
  "model_Add c model = model\<lparr>m_constraints := m_constraints model @ [c]\<rparr>"

text \<open>
  What the oracle answers: the raw status code, \<^verbatim>\<open>solver.value\<close> on a handle,
  the free-text \<^verbatim>\<open>solution_info\<close> and the statistics. The status codes are those of
  the library's \<^verbatim>\<open>CpSolverStatus\<close> enumeration.
\<close>

record oracle_result =
  raw_status :: int
  solver_value :: "nat \<Rightarrow> int"
  solution_info :: string
  wall_time :: real
  num_conflicts :: int
  num_branches :: int
  objective_value :: real
  best_objective_bound :: real

definition UNKNOWN :: int where "UNKNOWN = 0"
definition MODEL_INVALID :: int where "MODEL_INVALID = 1"
definition FEASIBLE :: int where "FEASIBLE = 2"
definition INFEASIBLE :: int where "INFEASIBLE = 3"
definition OPTIMAL :: int where "OPTIMAL = 4"

type_synonym solve_fn = "cp_model \<Rightarrow> real \<Rightarrow> bool \<Rightarrow> exn + oracle_result"

section \<open>The compiler (solver.py)\<close>

record variable_bounds =
  lower :: int
  upper :: int

record tracked_soft_constraint =
  constraint_id :: string
  violation_var :: nat
  target_value :: int
  comparator :: cmp_op
  terms :: "lterm list"

type_synonym bounds_map = "(string \<times> variable_bounds) list"
type_synonym vars_map = "(string \<times> nat) list"

subsection \<open>\<^verbatim>\<open>_collect_bounds\<close>\<close>

fun collect_bounds_from :: "bounds_map \<Rightarrow> variable list \<Rightarrow> exn + bounds_map" where
  "collect_bounds_from bounds [] = Inr bounds"
| "collect_bounds_from bounds (var # rest) =
     (case var_type var of
        VBool \<Rightarrow>
          collect_bounds_from
            (AList.update (var_name var) \<lparr>lower = 0, upper = 1\<rparr> bounds) rest
      | VInt \<Rightarrow>
          if var_min var = None \<or> var_max var = None
          then Inl (ValueError (''Int variable '' @ var_name var @ '' requires min and max''))
          else collect_bounds_from
            (AList.update (var_name var)
               \<lparr>lower = the (var_min var), upper = the (var_max var)\<rparr> bounds) rest
      | VInterval \<Rightarrow> collect_bounds_from bounds rest)"

definition collect_bounds :: "variable list \<Rightarrow> exn + bounds_map" where
  "collect_bounds variables = collect_bounds_from [] variables"

subsection \<open>\<^verbatim>\<open>_term_range\<close>, \<^verbatim>\<open>_expression_range\<close>, \<^verbatim>\<open>_sum_expr\<close>\<close>

definition term_range :: "lterm \<Rightarrow> variable_bounds \<Rightarrow> int \<times> int" where
  "term_range t bounds =
     (let coeff = term_coeff t in
      if coeff \<ge> 0 then (coeff * lower bounds, coeff * upper bounds)
      else (coeff * upper bounds, coeff * lower bounds))"

fun expression_range_from :: "int \<Rightarrow> int \<Rightarrow> lterm list \<Rightarrow> bounds_map \<Rightarrow> exn + int \<times> int" where
  "expression_range_from min_expr max_expr [] bounds = Inr (min_expr, max_expr)"
| "expression_range_from min_expr max_expr (t # ts) bounds =
     (case map_of bounds (term_var t) of
        None \<Rightarrow> Inl (ValueError (''Unknown variable '' @ term_var t))
      | Some b \<Rightarrow>
          (case term_range t b of
             (term_min, term_max) \<Rightarrow>
               expression_range_from (min_expr + term_min) (max_expr + term_max) ts bounds))"

definition expression_range :: "lterm list \<Rightarrow> bounds_map \<Rightarrow> exn + int \<times> int" where
  "expression_range ts bounds = expression_range_from 0 0 ts bounds"

fun sum_expr :: "lin_expr list \<Rightarrow> lin_expr option" where
  "sum_expr [] = None"
| "sum_expr (e # es) = Some (foldl Add e es)"

subsection \<open>Resolving names: the generator expressions over \<^verbatim>\<open>vars_map\<close>\<close>

text \<open>
  \<^verbatim>\<open>sum(vars_map[t.var] * t.coeff for t in terms)\<close>: Python's \<^verbatim>\<open>sum\<close> starts
  from \<open>0\<close> and adds the items from left to right; the first unknown name raises
  \<open>KeyError\<close>.
\<close>

fun sum_terms_from :: "lin_expr \<Rightarrow> vars_map \<Rightarrow> lterm list \<Rightarrow> exn + lin_expr" where
  "sum_terms_from acc vm [] = Inr acc"
| "sum_terms_from acc vm (t # ts) =
     (case map_of vm (term_var t) of
        None \<Rightarrow> Inl (KeyError (term_var t))
      | Some h \<Rightarrow> sum_terms_from (Add acc (Mul (Var h) (term_coeff t))) vm ts)"

definition sum_terms :: "vars_map \<Rightarrow> lterm list \<Rightarrow> exn + lin_expr" where
  "sum_terms vm ts = sum_terms_from (Const 0) vm ts"

text \<open>\<^verbatim>\<open>[vars_map[t.var] * t.coeff for t in objective.terms]\<close>\<close>

fun term_products :: "vars_map \<Rightarrow> lterm list \<Rightarrow> exn + lin_expr list" where
  "term_products vm [] = Inr []"
| "term_products vm (t # ts) =
     (case map_of vm (term_var t) of
        None \<Rightarrow> Inl (KeyError (term_var t))
      | Some h \<Rightarrow>
          (case term_products vm ts of
             Inl e \<Rightarrow> Inl e
           | Inr es \<Rightarrow> Inr (Mul (Var h) (term_coeff t) # es)))"

text \<open>\<^verbatim>\<open>[vars_map[v] for v in constraint.vars]\<close>\<close>

fun lookup_all :: "vars_map \<Rightarrow> string list \<Rightarrow> exn + nat list" where
  "lookup_all vm [] = Inr []"
| "lookup_all vm (n # ns) =
     (case map_of vm n of
        None \<Rightarrow> Inl (KeyError n)
      | Some h \<Rightarrow>
          (case lookup_all vm ns of
             Inl e \<Rightarrow> Inl e
           | Inr hs \<Rightarrow> Inr (h # hs)))"

subsection \<open>The constraint handlers\<close>

text \<open>\<^verbatim>\<open>not constraint.terms\<close> holds for \<^verbatim>\<open>None\<close> and for the empty list.\<close>

definition add_linear_constraint :: "cp_model \<Rightarrow> constraint \<Rightarrow> vars_map \<Rightarrow> exn + cp_model" where
  "add_linear_constraint model c vm =
     (if c_terms c = None \<or> c_terms c = Some [] \<or> c_op c = None \<or> c_rhs c = None
      then Inl (ValueError ''Linear constraint requires terms, op, and rhs'')
      else
        (case sum_terms vm (the (c_terms c)) of
           Inl e \<Rightarrow> Inl e
         | Inr expr \<Rightarrow>
             (case the (c_op c) of
                OpLe \<Rightarrow> Inr (model_Add (AddLe expr (Const (the (c_rhs c)))) model)
              | OpGe \<Rightarrow> Inr (model_Add (AddGe expr (Const (the (c_rhs c)))) model)
              | OpEq \<Rightarrow> Inr (model_Add (AddEq expr (Const (the (c_rhs c)))) model))))"

text \<open>
  \<^verbatim>\<open>_add_soft_linear_constraint\<close>. The lists \<^verbatim>\<open>penalty_terms\<close> and
  \<^verbatim>\<open>tracked_constraints\<close> that the source appends to are returned updated. The
  inner \<open>case\<close> is the \<^verbatim>\<open>match\<close> statement: it yields \<^verbatim>\<open>max_violation\<close>, the
  \<^verbatim>\<open>violation\<close> variable and the model; \<^verbatim>\<open>violation\<close> is always set after it, so
  the check \<^verbatim>\<open>violation is None\<close> never fires.
  \<open>soft_constraint_id\<close> is \<^verbatim>\<open>constraint.id or f"soft_{constraint_index}"\<close>: the
  synthetic name is taken when the id is \<^verbatim>\<open>None\<close> or the empty string.
\<close>

definition soft_constraint_id :: "constraint \<Rightarrow> nat \<Rightarrow> string" where
  "soft_constraint_id c constraint_index =
     (if c_id c = None \<or> c_id c = Some []
      then ''soft_'' @ str_nat constraint_index else the (c_id c))"

definition add_soft_linear_constraint ::
  "cp_model \<Rightarrow> constraint \<Rightarrow> vars_map \<Rightarrow> bounds_map \<Rightarrow> lin_expr list \<Rightarrow>
   tracked_soft_constraint list \<Rightarrow> nat \<Rightarrow>
   exn + cp_model \<times> lin_expr list \<times> tracked_soft_constraint list" where
  "add_soft_linear_constraint model c vm bounds penalty_terms tracked_constraints
       constraint_index =
     (if c_terms c = None \<or> c_terms c = Some [] \<or> c_op c = None \<or> c_rhs c = None
         \<or> c_penalty c = None
      then Inl (ValueError ''Soft linear constraint requires terms, op, rhs, and penalty'')
      else
        (case expression_range (the (c_terms c)) bounds of
           Inl e \<Rightarrow> Inl e
         | Inr (min_expr, max_expr) \<Rightarrow>
        (case sum_terms vm (the (c_terms c)) of
           Inl e \<Rightarrow> Inl e
         | Inr expr \<Rightarrow>
        (let cid = soft_constraint_id c constraint_index in
        (case
           (case the (c_op c) of
              OpLe \<Rightarrow>
                (let max_violation = max 0 (max_expr - the (c_rhs c)) in
                 case NewIntVar 0 max_violation (''violation_'' @ cid) model of
                   (violation, model1) \<Rightarrow>
                     Inr (max_violation, violation,
                          model_Add (AddLe expr (Add (Const (the (c_rhs c))) (Var violation)))
                            model1))
            | OpGe \<Rightarrow>
                (let max_violation = max 0 (the (c_rhs c) - min_expr) in
                 case NewIntVar 0 max_violation (''violation_'' @ cid) model of
                   (violation, model1) \<Rightarrow>
                     Inr (max_violation, violation,
                          model_Add (AddGe (Add expr (Var violation)) (Const (the (c_rhs c))))
                            model1))
            | OpEq \<Rightarrow>
                Inl (ValueError (''Unsupported soft linear operator '' @ str_op OpEq)))
         of
           Inl e \<Rightarrow> Inl e
         | Inr (max_violation, violation, model2) \<Rightarrow>
             if max_violation > 0 then
               Inr (model2,
                    penalty_terms @ [Mul (Var violation) (the (c_penalty c))],
                    if c_id c \<noteq> None then
                      tracked_constraints @
                        [\<lparr>constraint_id = cid, violation_var = violation,
                          target_value = the (c_rhs c), comparator = the (c_op c),
                          terms = the (c_terms c)\<rparr>]
                    else tracked_constraints)
             else Inr (model2, penalty_terms, tracked_constraints))))))"

definition add_exactly_one :: "cp_model \<Rightarrow> constraint \<Rightarrow> vars_map \<Rightarrow> exn + cp_model" where
  "add_exactly_one model c vm =
     (if c_vars c = None \<or> c_vars c = Some []
      then Inl (ValueError ''Exactly one constraint requires vars'')
      else
        (case lookup_all vm (the (c_vars c)) of
           Inl e \<Rightarrow> Inl e
         | Inr literals \<Rightarrow> Inr (model_Add (AddExactlyOne literals) model)))"

definition add_at_most_one :: "cp_model \<Rightarrow> constraint \<Rightarrow> vars_map \<Rightarrow> exn + cp_model" where
  "add_at_most_one model c vm =
     (if c_vars c = None \<or> c_vars c = Some []
      then Inl (ValueError ''At most one constraint requires vars'')
      else
        (case lookup_all vm (the (c_vars c)) of
           Inl e \<Rightarrow> Inl e
         | Inr literals \<Rightarrow> Inr (model_Add (AddAtMostOne literals) model)))"

definition add_implication :: "cp_model \<Rightarrow> constraint \<Rightarrow> vars_map \<Rightarrow> exn + cp_model" where
  "add_implication model c vm =
     (if c_if c = None \<or> c_then c = None
      then Inl (ValueError ''Implication constraint requires if/then'')
      else
        (case map_of vm (the (c_if c)) of
           None \<Rightarrow> Inl (KeyError (the (c_if c)))
         | Some a \<Rightarrow>
             (case map_of vm (the (c_then c)) of
                None \<Rightarrow> Inl (KeyError (the (c_then c)))
              | Some b \<Rightarrow> Inr (model_Add (AddImplication a b) model))))"

definition add_bool_or :: "cp_model \<Rightarrow> constraint \<Rightarrow> vars_map \<Rightarrow> exn + cp_model" where
  "add_bool_or model c vm =
     (if c_vars c = None \<or> c_vars c = Some []
      then Inl (ValueError ''Bool OR constraint requires vars'')
      else
        (case lookup_all vm (the (c_vars c)) of
           Inl e \<Rightarrow> Inl e
         | Inr literals \<Rightarrow> Inr (model_Add (AddBoolOr literals) model)))"

definition add_bool_and :: "cp_model \<Rightarrow> constraint \<Rightarrow> vars_map \<Rightarrow> exn + cp_model" where
  "add_bool_and model c vm =
     (if c_vars c = None \<or> c_vars c = Some []
      then Inl (ValueError ''Bool AND constraint requires vars'')
      else
        (case lookup_all vm (the (c_vars c)) of
           Inl e \<Rightarrow> Inl e
         | Inr literals \<Rightarrow> Inr (model_Add (AddBoolAnd literals) model)))"

definition add_no_overlap :: "cp_model \<Rightarrow> constraint \<Rightarrow> vars_map \<Rightarrow> exn + cp_model" where
  "add_no_overlap model c intervals_map =
     (if c_intervals c = None \<or> c_intervals c = Some []
      then Inl (ValueError ''NoOverlap constraint requires intervals'')
      else
        (case lookup_all intervals_map (the (c_intervals c)) of
           Inl e \<Rightarrow> Inl e
         | Inr intervals \<Rightarrow> Inr (model_Add (AddNoOverlap intervals) model)))"

subsection \<open>\<^verbatim>\<open>_build_objective\<close>\<close>

definition model_Minimize :: "lin_expr \<Rightarrow> cp_model \<Rightarrow> cp_model" where
  "model_Minimize expr model = model\<lparr>m_objective := Some (Minimize expr)\<rparr>"

definition model_Maximize :: "lin_expr \<Rightarrow> cp_model \<Rightarrow> cp_model" where
  "model_Maximize expr model = model\<lparr>m_objective := Some (Maximize expr)\<rparr>"

text \<open>
  A pydantic model is always truthy, so \<^verbatim>\<open>if objective:\<close> tests for \<^verbatim>\<open>None\<close>.
  The inner \<open>case\<close> is the chain that chooses \<^verbatim>\<open>expr\<close>, with \<open>None\<close> for its
  \<^verbatim>\<open>return False\<close>.
\<close>

definition build_objective ::
  "cp_model \<Rightarrow> objective option \<Rightarrow> vars_map \<Rightarrow> lin_expr list \<Rightarrow> exn + cp_model \<times> bool" where
  "build_objective model objective vm penalty_terms =
     (let penalty_expr = sum_expr penalty_terms in
      case objective of
        Some obj \<Rightarrow>
          (case (if obj_terms obj \<noteq> [] then term_products vm (obj_terms obj) else Inr []) of
             Inl e \<Rightarrow> Inl e
           | Inr objective_terms \<Rightarrow>
               (let obj_expr = sum_expr objective_terms in
                case
                  (if penalty_expr \<noteq> None \<and> obj_expr \<noteq> None then
                     Some (if obj_sense obj = minimize
                           then Add (the obj_expr) (the penalty_expr)
                           else Sub (the obj_expr) (the penalty_expr))
                   else if obj_expr \<noteq> None then Some (the obj_expr)
                   else if penalty_expr \<noteq> None then
                     Some (if obj_sense obj = minimize
                           then the penalty_expr else Neg (the penalty_expr))
                   else None)
                of
                  None \<Rightarrow> Inr (model, False)
                | Some expr \<Rightarrow>
                    if obj_sense obj = maximize
                    then Inr (model_Maximize expr model, True)
                    else Inr (model_Minimize expr model, True)))
      | None \<Rightarrow>
          (case penalty_expr of
             Some p \<Rightarrow> Inr (model_Minimize p model, True)
           | None \<Rightarrow> Inr (model, False)))"

subsection \<open>\<^verbatim>\<open>solve_request\<close>: variable creation\<close>

text \<open>
  \<open>create_variable\<close> is the body of the loop over \<^verbatim>\<open>request.variables\<close>; the state
  is the model, \<^verbatim>\<open>vars_map\<close> and \<^verbatim>\<open>intervals_map\<close>.
\<close>

definition create_variable ::
  "cp_model \<Rightarrow> vars_map \<Rightarrow> vars_map \<Rightarrow> variable \<Rightarrow> exn + cp_model \<times> vars_map \<times> vars_map" where
  "create_variable model vm intervals_map var =
     (case var_type var of
        VBool \<Rightarrow>
          (case NewBoolVar (var_name var) model of
             (h, model1) \<Rightarrow> Inr (model1, AList.update (var_name var) h vm, intervals_map))
      | VInt \<Rightarrow>
          if var_min var = None \<or> var_max var = None
          then Inl (ValueError (''Int variable '' @ var_name var @ '' requires min and max''))
          else
            (case NewIntVar (the (var_min var)) (the (var_max var)) (var_name var) model of
               (h, model1) \<Rightarrow> Inr (model1, AList.update (var_name var) h vm, intervals_map))
      | VInterval \<Rightarrow>
          if var_start var = None \<or> var_end var = None \<or> var_size var = None
          then Inl (ValueError
                 (''Interval variable '' @ var_name var @ '' requires start, end, and size''))
          else if the (var_end var) - the (var_start var) \<noteq> the (var_size var)
          then Inl (ValueError
                 (''Interval variable '' @ var_name var @ '' inconsistent: end-start=''
                  @ str_int (the (var_end var) - the (var_start var))
                  @ '' != size='' @ str_int (the (var_size var))))
          else
            (case var_presenceVar var of
               None \<Rightarrow>
                 (case NewIntervalVar (the (var_start var)) (the (var_size var))
                         (the (var_end var)) (var_name var) model of
                    (h, model1) \<Rightarrow>
                      Inr (model1, vm, AList.update (var_name var) h intervals_map))
             | Some p \<Rightarrow>
                 (case map_of vm p of
                    None \<Rightarrow>
                      Inl (ValueError
                        (''Interval variable '' @ var_name var
                         @ '' references unknown presenceVar '' @ p))
                  | Some presence \<Rightarrow>
                      (case NewOptionalIntervalVar (the (var_start var)) (the (var_size var))
                              (the (var_end var)) presence (var_name var) model of
                         (h, model1) \<Rightarrow>
                           Inr (model1, vm, AList.update (var_name var) h intervals_map)))))"

fun create_variables ::
  "cp_model \<Rightarrow> vars_map \<Rightarrow> vars_map \<Rightarrow> variable list \<Rightarrow> exn + cp_model \<times> vars_map \<times> vars_map" where
  "create_variables model vm intervals_map [] = Inr (model, vm, intervals_map)"
| "create_variables model vm intervals_map (var # rest) =
     (case create_variable model vm intervals_map var of
        Inl e \<Rightarrow> Inl e
      | Inr (model1, vm1, intervals_map1) \<Rightarrow> create_variables model1 vm1 intervals_map1 rest)"

subsection \<open>\<^verbatim>\<open>solve_request\<close>: the loop over the constraints\<close>

text \<open>
  \<open>compile_constraint\<close> is the body of the loop (the \<^verbatim>\<open>match constraint.type\<close>);
  the state is the model, \<^verbatim>\<open>penalty_terms\<close>, \<^verbatim>\<open>tracked_constraints\<close> and
  \<^verbatim>\<open>constraint_index\<close>, which only a soft-linear constraint advances.
\<close>

type_synonym compile_state =
  "cp_model \<times> lin_expr list \<times> tracked_soft_constraint list \<times> nat"

text \<open>A handler that only changes the model leaves the lists and the index as they are.\<close>

definition keep_lists ::
  "lin_expr list \<Rightarrow> tracked_soft_constraint list \<Rightarrow> nat \<Rightarrow> exn + cp_model \<Rightarrow>
   exn + compile_state" where
  "keep_lists penalty_terms tracked constraint_index r =
     (case r of Inl e \<Rightarrow> Inl e
      | Inr model1 \<Rightarrow> Inr (model1, penalty_terms, tracked, constraint_index))"

definition compile_constraint ::
  "vars_map \<Rightarrow> vars_map \<Rightarrow> bounds_map \<Rightarrow> compile_state \<Rightarrow> constraint \<Rightarrow> exn + compile_state" where
  "compile_constraint vm intervals_map var_bounds st c =
     (case st of (model, penalty_terms, tracked_constraints, constraint_index) \<Rightarrow>
        (case c_type c of
           Linear \<Rightarrow>
             keep_lists penalty_terms tracked_constraints constraint_index
               (add_linear_constraint model c vm)
         | SoftLinear \<Rightarrow>
             (case add_soft_linear_constraint model c vm var_bounds penalty_terms
                     tracked_constraints constraint_index of
                Inl e \<Rightarrow> Inl e
              | Inr (model1, penalty_terms1, tracked1) \<Rightarrow>
                  Inr (model1, penalty_terms1, tracked1, constraint_index + 1))
         | ExactlyOne \<Rightarrow>
             keep_lists penalty_terms tracked_constraints constraint_index
               (add_exactly_one model c vm)
         | AtMostOne \<Rightarrow>
             keep_lists penalty_terms tracked_constraints constraint_index
               (add_at_most_one model c vm)
         | Implication \<Rightarrow>
             keep_lists penalty_terms tracked_constraints constraint_index
               (add_implication model c vm)
         | BoolOr \<Rightarrow>
             keep_lists penalty_terms tracked_constraints constraint_index
               (add_bool_or model c vm)
         | BoolAnd \<Rightarrow>
             keep_lists penalty_terms tracked_constraints constraint_index
               (add_bool_and model c vm)
         | NoOverlap \<Rightarrow>
             keep_lists penalty_terms tracked_constraints constraint_index
               (add_no_overlap model c intervals_map)))"

fun compile_constraints ::
  "vars_map \<Rightarrow> vars_map \<Rightarrow> bounds_map \<Rightarrow> compile_state \<Rightarrow> constraint list \<Rightarrow>
   exn + compile_state" where
  "compile_constraints vm intervals_map var_bounds st [] = Inr st"
| "compile_constraints vm intervals_map var_bounds st (c # rest) =
     (case compile_constraint vm intervals_map var_bounds st c of
        Inl e \<Rightarrow> Inl e
      | Inr st1 \<Rightarrow> compile_constraints vm intervals_map var_bounds st1 rest)"

subsection \<open>\<^verbatim>\<open>solve_request\<close>: everything before the oracle is invoked\<close>

record build =
  b_model :: cp_model
  b_vars_map :: vars_map
  b_tracked :: "tracked_soft_constraint list"
  b_has_objective :: bool

definition build_model :: "solver_request \<Rightarrow> exn + build" where
  "build_model request =
     (case collect_bounds (req_variables request) of
        Inl e \<Rightarrow> Inl e
      | Inr var_bounds \<Rightarrow>
     (case create_variables CpModel [] [] (req_variables request) of
        Inl e \<Rightarrow> Inl e
      | Inr (model1, vm, intervals_map) \<Rightarrow>
     (case compile_constraints vm intervals_map var_bounds (model1, [], [], 0)
             (req_constraints request) of
        Inl e \<Rightarrow> Inl e
      | Inr (model2, penalty_terms, tracked_constraints, constraint_index) \<Rightarrow>
     (case build_objective model2 (req_objective request) vm penalty_terms of
        Inl e \<Rightarrow> Inl e
      | Inr (model3, has_objective) \<Rightarrow>
          Inr \<lparr>b_model = model3, b_vars_map = vm, b_tracked = tracked_constraints,
               b_has_objective = has_objective\<rparr>))))"

subsection \<open>\<^verbatim>\<open>solve_request\<close>: reading the oracle's answer\<close>

definition status_map :: "(int \<times> string) list" where
  "status_map =
     [(OPTIMAL, ''OPTIMAL''), (FEASIBLE, ''FEASIBLE''), (INFEASIBLE, ''INFEASIBLE''),
      (MODEL_INVALID, ''ERROR''), (UNKNOWN, ''TIMEOUT'')]"

definition status_text :: "int \<Rightarrow> string" where
  "status_text st = (case map_of status_map st of Some s \<Rightarrow> s | None \<Rightarrow> ''ERROR'')"

text \<open>\<^verbatim>\<open>int(x)\<close> on a float truncates towards zero.\<close>

definition py_int :: "real \<Rightarrow> int" where
  "py_int x = (if x \<ge> 0 then \<lfloor>x\<rfloor> else \<lceil>x\<rceil>)"

text \<open>\<^verbatim>\<open>sum(int(solver.value(vars_map[t.var])) * t.coeff for t in tracked.terms)\<close>\<close>

fun actual_value_from :: "int \<Rightarrow> oracle_result \<Rightarrow> vars_map \<Rightarrow> lterm list \<Rightarrow> exn + int" where
  "actual_value_from acc res vm [] = Inr acc"
| "actual_value_from acc res vm (t # ts) =
     (case map_of vm (term_var t) of
        None \<Rightarrow> Inl (KeyError (term_var t))
      | Some h \<Rightarrow> actual_value_from (acc + solver_value res h * term_coeff t) res vm ts)"

text \<open>The loop over \<^verbatim>\<open>tracked_constraints\<close> that fills \<^verbatim>\<open>soft_violations\<close>.\<close>

fun soft_violations_from ::
  "soft_constraint_violation list \<Rightarrow> oracle_result \<Rightarrow> vars_map \<Rightarrow>
   tracked_soft_constraint list \<Rightarrow> exn + soft_constraint_violation list" where
  "soft_violations_from soft_violations res vm [] = Inr soft_violations"
| "soft_violations_from soft_violations res vm (tracked # rest) =
     (let violation_amount = solver_value res (violation_var tracked) in
      if violation_amount \<le> 0 then soft_violations_from soft_violations res vm rest
      else
        (case actual_value_from 0 res vm (terms tracked) of
           Inl e \<Rightarrow> Inl e
         | Inr actual_value \<Rightarrow>
             soft_violations_from
               (soft_violations @
                  [\<lparr>constraintId = constraint_id tracked, violationAmount = violation_amount,
                    targetValue = target_value tracked, actualValue = actual_value\<rparr>])
               res vm rest))"

definition extract_response :: "build \<Rightarrow> oracle_result \<Rightarrow> exn + solver_response" where
  "extract_response b res =
     (if raw_status res \<noteq> OPTIMAL \<and> raw_status res \<noteq> FEASIBLE then
        Inr \<lparr>resp_status = status_text (raw_status res), resp_values = None,
             resp_statistics = None, resp_error = None,
             resp_solutionInfo =
               (if solution_info res = [] then None else Some (solution_info res)),
             resp_softViolations = None\<rparr>
      else
        (let statistics =
               [(''solveTimeMs'', IntStat (py_int (wall_time res * 1000))),
                (''conflicts'', IntStat (num_conflicts res)),
                (''branches'', IntStat (num_branches res))]
               @ (if b_has_objective b
                  then [(''objectiveValue'', FloatStat (objective_value res)),
                        (''bestObjectiveBound'', FloatStat (best_objective_bound res))]
                  else [])
         in
         case soft_violations_from [] res (b_vars_map b) (b_tracked b) of
           Inl e \<Rightarrow> Inl e
         | Inr soft_violations \<Rightarrow>
             Inr \<lparr>resp_status = status_text (raw_status res),
                  resp_values = Some (map (\<lambda>(name, var). (name, solver_value res var))
                                        (b_vars_map b)),
                  resp_statistics = Some statistics, resp_error = None,
                  resp_solutionInfo = None,
                  resp_softViolations =
                    (if soft_violations = [] then None else Some soft_violations)\<rparr>))"

subsection \<open>\<^verbatim>\<open>solve_request\<close>\<close>

text \<open>
  \<open>solve_request_try\<close> is the body of the \<^verbatim>\<open>try\<close>: an exception anywhere in it is
  \<open>Inl\<close>. The oracle \<open>solve\<close> is invoked once, after the whole model is built, with
  the model, the time limit and the stop-after-first-solution flag (\<open>run_solver\<close>).
  \<^verbatim>\<open>request.options or Options()\<close> takes the defaults when no options are given.
\<close>

definition default_options :: options where
  "default_options = \<lparr>timeLimitSeconds = 60, solutionLimit = None\<rparr>"

definition run_solver :: "solve_fn \<Rightarrow> solver_request \<Rightarrow> cp_model \<Rightarrow> exn + oracle_result" where
  "run_solver solve request model =
     (let opts = (case req_options request of None \<Rightarrow> default_options
                  | Some given \<Rightarrow> given)
      in solve model (timeLimitSeconds opts) (solutionLimit opts = Some 1))"

definition solve_request_try :: "solve_fn \<Rightarrow> solver_request \<Rightarrow> exn + solver_response" where
  "solve_request_try solve request =
     (case build_model request of
        Inl e \<Rightarrow> Inl e
      | Inr b \<Rightarrow>
          (case run_solver solve request (b_model b) of
             Inl e \<Rightarrow> Inl e
           | Inr res \<Rightarrow> extract_response b res))"

definition error_response :: "string \<Rightarrow> solver_response" where
  "error_response msg =
     \<lparr>resp_status = ''ERROR'', resp_values = None, resp_statistics = None,
      resp_error = Some msg, resp_solutionInfo = None, resp_softViolations = None\<rparr>"

definition solve_request ::
  "(string \<Rightarrow> string) \<Rightarrow> solve_fn \<Rightarrow> solver_request \<Rightarrow> solver_response" where
  "solve_request py_repr solve request =
     (case solve_request_try solve request of
        Inl exc \<Rightarrow> error_response (str_exc py_repr exc)
      | Inr response \<Rightarrow> response)"

section \<open>Requests written with the defaults of models.py\<close>

text \<open>
  \<open>Variable\<close> and \<open>Constraint\<close> give every optional field its default
  \<^verbatim>\<open>None\<close>; a concrete request sets the others by record update.
\<close>

definition Variable :: "var_kind \<Rightarrow> string \<Rightarrow> variable" where
  "Variable kind name =
     \<lparr>var_type = kind, var_name = name, var_min = None, var_max = None, var_start = None,
      var_end = None, var_size = None, var_presenceVar = None\<rparr>"

definition Constraint :: "constraint_kind \<Rightarrow> constraint" where
  "Constraint kind =
     \<lparr>c_type = kind, c_terms = None, c_op = None, c_rhs = None, c_penalty = None,
      c_vars = None, c_intervals = None, c_if = None, c_then = None, c_id = None\<rparr>"

definition Term :: "string \<Rightarrow> int \<Rightarrow> lterm" where
  "Term v k = \<lparr>term_var = v, term_coeff = k\<rparr>"

text \<open>An oracle that answers every model with the given status and assignment.\<close>

definition answer :: "int \<Rightarrow> (nat \<Rightarrow> int) \<Rightarrow> string \<Rightarrow> solve_fn" where
  "answer st assignment info =
     (\<lambda>model time_limit stop_after_first.
        Inr \<lparr>raw_status = st, solver_value = assignment, solution_info = info,
             wall_time = 0, num_conflicts = 0, num_branches = 0, objective_value = 0,
             best_objective_bound = 0\<rparr>)"

section \<open>The specification's formulas\<close>

text \<open>
  The statically derived range of \<open>\<Sum> coeff\<cdot>var\<close> as the specification words it: the sum,
  over the terms, of \<open>coeff\<cdot>lower\<close> and \<open>coeff\<cdot>upper\<close> when \<open>coeff \<ge> 0\<close>, swapped
  otherwise. A term whose variable has no bounds contributes \<open>0\<close>; the theorems only
  use the formulas where every variable has bounds.
\<close>

definition spec_term_min :: "bounds_map \<Rightarrow> lterm \<Rightarrow> int" where
  "spec_term_min bounds t =
     (case map_of bounds (term_var t) of
        None \<Rightarrow> 0
      | Some b \<Rightarrow>
          if term_coeff t \<ge> 0 then term_coeff t * lower b else term_coeff t * upper b)"

definition spec_term_max :: "bounds_map \<Rightarrow> lterm \<Rightarrow> int" where
  "spec_term_max bounds t =
     (case map_of bounds (term_var t) of
        None \<Rightarrow> 0
      | Some b \<Rightarrow>
          if term_coeff t \<ge> 0 then term_coeff t * upper b else term_coeff t * lower b)"

definition spec_min_expr :: "bounds_map \<Rightarrow> lterm list \<Rightarrow> int" where
  "spec_min_expr bounds ts = sum_list (map (spec_term_min bounds) ts)"

definition spec_max_expr :: "bounds_map \<Rightarrow> lterm list \<Rightarrow> int" where
  "spec_max_expr bounds ts = sum_list (map (spec_term_max bounds) ts)"

text \<open>
  The maximum violation as the specification words it: \<open>max(0, maxExpr - rhs)\<close> for
  \<open>\<le>\<close>, \<open>max(0, rhs - minExpr)\<close> for \<open>\<ge>\<close>; \<open>0\<close> where the constraint has no terms,
  no right-hand side or another comparator.
\<close>

definition spec_max_violation :: "bounds_map \<Rightarrow> constraint \<Rightarrow> int" where
  "spec_max_violation bounds c =
     (case c_terms c of None \<Rightarrow> 0 | Some ts \<Rightarrow>
      (case c_rhs c of None \<Rightarrow> 0 | Some rhs \<Rightarrow>
       (case c_op c of
          Some OpLe \<Rightarrow> max 0 (spec_max_expr bounds ts - rhs)
        | Some OpGe \<Rightarrow> max 0 (rhs - spec_min_expr bounds ts)
        | _ \<Rightarrow> 0)))"




section \<open>Notions used to state the properties\<close>

text \<open>
  The scalar variables of a request are its boolean and integer variables, in the
  order of declaration; \<open>native_of\<close> is the variable that \<^verbatim>\<open>NewBoolVar\<close> or
  \<^verbatim>\<open>NewIntVar\<close> records for one of them.
\<close>

definition scalars :: "variable list \<Rightarrow> variable list" where
  "scalars vs = filter (\<lambda>v. var_type v \<noteq> VInterval) vs"

definition native_of :: "variable \<Rightarrow> int_var" where
  "native_of v =
     (case var_type v of
        VInt \<Rightarrow> \<lparr>iv_lb = the (var_min v), iv_ub = the (var_max v), iv_name = var_name v\<rparr>
      | _ \<Rightarrow> \<lparr>iv_lb = 0, iv_ub = 1, iv_name = var_name v\<rparr>)"

text \<open>
  A constraint is trackable when it is soft-linear, carries an id and has a positive
  maximum violation. \<open>tracks\<close> relates a tracked entry to the constraint it was made
  from: its slack variable was created after the first \<open>base\<close> variables, is bounded
  by \<open>[0, maxViolation]\<close>, and target, terms and comparator are the constraint's; a
  non-empty id is kept; every term resolves in \<open>vars_map\<close>.
\<close>

definition trackable :: "bounds_map \<Rightarrow> constraint \<Rightarrow> bool" where
  "trackable bounds c \<longleftrightarrow>
     c_type c = SoftLinear \<and> c_id c \<noteq> None \<and> 0 < spec_max_violation bounds c"

definition tracks ::
  "int_var list \<Rightarrow> nat \<Rightarrow> bounds_map \<Rightarrow> vars_map \<Rightarrow> tracked_soft_constraint \<Rightarrow> constraint \<Rightarrow> bool"
  where
  "tracks vars base bounds vm t c \<longleftrightarrow>
     base \<le> violation_var t \<and> violation_var t < length vars
     \<and> iv_lb (vars ! violation_var t) = 0
     \<and> iv_ub (vars ! violation_var t) = spec_max_violation bounds c
     \<and> c_rhs c = Some (target_value t) \<and> c_terms c = Some (terms t)
     \<and> c_op c = Some (comparator t)
     \<and> (c_id c \<noteq> Some [] \<longrightarrow> c_id c = Some (constraint_id t))
     \<and> (\<forall>tm\<in>set (terms t). map_of vm (term_var tm) \<noteq> None)"

text \<open>The violation record that the extraction loop emits for a tracked entry.\<close>

definition violation_of ::
  "oracle_result \<Rightarrow> vars_map \<Rightarrow> tracked_soft_constraint \<Rightarrow> soft_constraint_violation" where
  "violation_of res vm t =
     \<lparr>constraintId = constraint_id t,
      violationAmount = solver_value res (violation_var t),
      targetValue = target_value t,
      actualValue =
        (\<Sum>tm\<leftarrow>terms t. solver_value res (the (map_of vm (term_var tm))) * term_coeff tm)\<rparr>"


text \<open>The violation list of a response, empty when the field is absent.\<close>

definition violation_list :: "solver_response \<Rightarrow> soft_constraint_violation list" where
  "violation_list r = (case resp_softViolations r of None \<Rightarrow> [] | Some rs \<Rightarrow> rs)"

section \<open>Two concrete requests\<close>

text \<open>
  \<open>roster_request\<close>: a boolean \<open>x\<close>, an integer \<open>y \<in> [0, 5]\<close>, an interval \<open>[0, 5)\<close>
  present when \<open>x\<close> holds, the hard constraint \<open>x = 1\<close>, the soft constraint
  \<open>y \<le> 2\<close> (penalty \<open>1\<close>, id \<open>cap\<close>) and the soft constraint \<open>x \<le> 1\<close>
  (penalty \<open>4\<close>, id \<open>idle\<close>), which cannot be violated. \<open>roster_answer\<close> is a
  feasible answer with \<open>x = 1\<close>, \<open>y = 3\<close> and the slack values \<open>1\<close> and \<open>0\<close>.
\<close>

definition roster_request :: solver_request where
  "roster_request =
     \<lparr>req_variables =
        [Variable VBool ''x'',
         (Variable VInt ''y'')\<lparr>var_min := Some 0, var_max := Some 5\<rparr>,
         (Variable VInterval ''s'')\<lparr>var_start := Some 0, var_end := Some 5,
            var_size := Some 5, var_presenceVar := Some ''x''\<rparr>],
      req_constraints =
        [(Constraint Linear)\<lparr>c_terms := Some [Term ''x'' 1], c_op := Some OpEq,
           c_rhs := Some 1\<rparr>,
         (Constraint SoftLinear)\<lparr>c_terms := Some [Term ''y'' 1], c_op := Some OpLe,
           c_rhs := Some 2, c_penalty := Some 1, c_id := Some ''cap''\<rparr>,
         (Constraint SoftLinear)\<lparr>c_terms := Some [Term ''x'' 1], c_op := Some OpLe,
           c_rhs := Some 1, c_penalty := Some 4, c_id := Some ''idle''\<rparr>],
      req_objective = None, req_options = None\<rparr>"

definition roster_answer :: solve_fn where
  "roster_answer = answer FEASIBLE (\<lambda>h. [1, 3, 1, 0] ! h) []"

text \<open>
  \<open>empty_id_request\<close>: the request of
  \<^verbatim>\<open>test_soft_constraint_reports_violation_when_id_provided\<close> (a boolean \<open>x\<close>, the
  hard constraint \<open>x = 0\<close>, the soft constraint \<open>x \<ge> 1\<close> with penalty \<open>5\<close>), with
  the empty string as the soft constraint's id. \<open>empty_id_answer\<close> is the optimal
  answer \<open>x = 0\<close> with slack \<open>1\<close>.
\<close>

definition empty_id_request :: solver_request where
  "empty_id_request =
     \<lparr>req_variables = [Variable VBool ''x''],
      req_constraints =
        [(Constraint Linear)\<lparr>c_terms := Some [Term ''x'' 1], c_op := Some OpEq,
           c_rhs := Some 0\<rparr>,
         (Constraint SoftLinear)\<lparr>c_terms := Some [Term ''x'' 1], c_op := Some OpGe,
           c_rhs := Some 1, c_penalty := Some 5, c_id := Some []\<rparr>],
      req_objective = None, req_options = None\<rparr>"

definition empty_id_answer :: solve_fn where
  "empty_id_answer = answer OPTIMAL (\<lambda>h. [0, 1] ! h) []"

section \<open>Properties\<close>

subsection \<open>The soft-linear handler\<close>

lemma expression_range_from_known:
  "\<forall>t\<in>set ts. map_of bounds (term_var t) \<noteq> None \<Longrightarrow>
   expression_range_from mn mx ts bounds =
     Inr (mn + spec_min_expr bounds ts, mx + spec_max_expr bounds ts)"
proof (induction ts arbitrary: mn mx)
  case Nil
  then show ?case by (simp add: spec_min_expr_def spec_max_expr_def)
next
  case (Cons t ts)
  from Cons.prems obtain b where b: "map_of bounds (term_var t) = Some b" by auto
  from Cons.prems have rest: "\<forall>t\<in>set ts. map_of bounds (term_var t) \<noteq> None" by simp
  show ?case
    using Cons.IH [OF rest] b
    by (simp add: term_range_def spec_min_expr_def spec_max_expr_def
        spec_term_min_def spec_term_max_def Let_def)
qed

lemma expression_range_known:
  "\<forall>t\<in>set ts. map_of bounds (term_var t) \<noteq> None \<Longrightarrow>
   expression_range ts bounds = Inr (spec_min_expr bounds ts, spec_max_expr bounds ts)"
  by (simp add: expression_range_def expression_range_from_known)

lemma expression_range_from_Inr_known:
  "expression_range_from mn mx ts bounds = Inr r \<Longrightarrow>
   \<forall>t\<in>set ts. map_of bounds (term_var t) \<noteq> None"
  by (induction ts arbitrary: mn mx) (auto split: option.splits prod.splits)




lemma add_soft_linear_constraint_le:
  assumes "c_terms c = Some ts" and "ts \<noteq> []" and "c_rhs c = Some rhs"
    and "c_penalty c = Some p" and "c_op c = Some OpLe"
    and "expression_range ts bounds = Inr (mn, mx)"
    and "sum_terms vm ts = Inr expr"
  shows "add_soft_linear_constraint model c vm bounds pts trk k =
    Inr (model\<lparr>m_variables := m_variables model @
            [\<lparr>iv_lb = 0, iv_ub = max 0 (mx - rhs),
              iv_name = ''violation_'' @ soft_constraint_id c k\<rparr>],
          m_constraints := m_constraints model @
            [AddLe expr (Add (Const rhs) (Var (length (m_variables model))))]\<rparr>,
         if 0 < max 0 (mx - rhs)
         then pts @ [Mul (Var (length (m_variables model))) p] else pts,
         if 0 < max 0 (mx - rhs) \<and> c_id c \<noteq> None
         then trk @ [\<lparr>constraint_id = soft_constraint_id c k,
                      violation_var = length (m_variables model),
                      target_value = rhs, comparator = OpLe, terms = ts\<rparr>]
         else trk)"
  using assms
  by (simp add: add_soft_linear_constraint_def NewIntVar_def model_Add_def Let_def)

lemma add_soft_linear_constraint_ge:
  assumes "c_terms c = Some ts" and "ts \<noteq> []" and "c_rhs c = Some rhs"
    and "c_penalty c = Some p" and "c_op c = Some OpGe"
    and "expression_range ts bounds = Inr (mn, mx)"
    and "sum_terms vm ts = Inr expr"
  shows "add_soft_linear_constraint model c vm bounds pts trk k =
    Inr (model\<lparr>m_variables := m_variables model @
            [\<lparr>iv_lb = 0, iv_ub = max 0 (rhs - mn),
              iv_name = ''violation_'' @ soft_constraint_id c k\<rparr>],
          m_constraints := m_constraints model @
            [AddGe (Add expr (Var (length (m_variables model)))) (Const rhs)]\<rparr>,
         if 0 < max 0 (rhs - mn)
         then pts @ [Mul (Var (length (m_variables model))) p] else pts,
         if 0 < max 0 (rhs - mn) \<and> c_id c \<noteq> None
         then trk @ [\<lparr>constraint_id = soft_constraint_id c k,
                      violation_var = length (m_variables model),
                      target_value = rhs, comparator = OpGe, terms = ts\<rparr>]
         else trk)"
  using assms
  by (simp add: add_soft_linear_constraint_def NewIntVar_def model_Add_def Let_def)



subsection \<open>The objective\<close>











subsection \<open>The response: status mapping, failures and exceptions\<close>

lemma status_text_table:
  "status_text OPTIMAL = ''OPTIMAL''" "status_text FEASIBLE = ''FEASIBLE''"
  "status_text INFEASIBLE = ''INFEASIBLE''" "status_text MODEL_INVALID = ''ERROR''"
  "status_text UNKNOWN = ''TIMEOUT''"
  by (simp_all add: status_text_def status_map_def OPTIMAL_def FEASIBLE_def INFEASIBLE_def
      MODEL_INVALID_def UNKNOWN_def)

lemma status_text_other:
  "st \<noteq> OPTIMAL \<Longrightarrow> st \<noteq> FEASIBLE \<Longrightarrow> st \<noteq> INFEASIBLE \<Longrightarrow> st \<noteq> MODEL_INVALID \<Longrightarrow>
   st \<noteq> UNKNOWN \<Longrightarrow> status_text st = ''ERROR''"
  by (simp add: status_text_def status_map_def)

lemma solve_request_non_success:
  assumes "build_model request = Inr b"
    and "run_solver solve request (b_model b) = Inr res"
    and "raw_status res \<noteq> OPTIMAL" and "raw_status res \<noteq> FEASIBLE"
  shows "solve_request py_repr solve request =
      \<lparr>resp_status = status_text (raw_status res), resp_values = None,
       resp_statistics = None, resp_error = None,
       resp_solutionInfo = (if solution_info res = [] then None else Some (solution_info res)),
       resp_softViolations = None\<rparr>"
  using assms by (simp add: solve_request_def solve_request_try_def extract_response_def)

text \<open>
  Claim C6. The status text is a fixed table: optimal gives OPTIMAL, feasible gives
  FEASIBLE, infeasible gives INFEASIBLE, model-invalid gives ERROR, unknown gives
  TIMEOUT and any other raw code gives ERROR. When the model was built and the oracle
  answers with a status other than optimal or feasible, the response carries the
  status text and the oracle's solution-info (absent when empty) and nothing else: no
  value map, no statistics, no error, no violation list.
\<close>

theorem status_mapping_and_failure_response:
  "status_text OPTIMAL = ''OPTIMAL'' \<and> status_text FEASIBLE = ''FEASIBLE''
   \<and> status_text INFEASIBLE = ''INFEASIBLE'' \<and> status_text MODEL_INVALID = ''ERROR''
   \<and> status_text UNKNOWN = ''TIMEOUT''
   \<and> (\<forall>st. st \<noteq> OPTIMAL \<and> st \<noteq> FEASIBLE \<and> st \<noteq> INFEASIBLE \<and> st \<noteq> MODEL_INVALID
         \<and> st \<noteq> UNKNOWN \<longrightarrow> status_text st = ''ERROR'')
   \<and> (\<forall>b res. build_model request = Inr b
         \<and> run_solver solve request (b_model b) = Inr res
         \<and> raw_status res \<noteq> OPTIMAL \<and> raw_status res \<noteq> FEASIBLE \<longrightarrow>
       solve_request py_repr solve request =
         \<lparr>resp_status = status_text (raw_status res), resp_values = None,
          resp_statistics = None, resp_error = None,
          resp_solutionInfo =
            (if solution_info res = [] then None else Some (solution_info res)),
          resp_softViolations = None\<rparr>)"
  using status_text_table status_text_other
    solve_request_non_success [where request = request and solve = solve
      and py_repr = py_repr]
  by blast

text \<open>
  C6 at the request of \<^verbatim>\<open>test_infeasible_solution_reports_solution_info\<close>
  (\<open>x = 0\<close> and \<open>x = 1\<close> over one boolean), answered infeasible, and at an answer
  with the raw code \<open>7\<close>.
\<close>

theorem status_mapping_and_failure_response_witness:
  "solve_request id (answer INFEASIBLE (\<lambda>h. 0) ''infeasible'')
     \<lparr>req_variables = [Variable VBool ''x''],
      req_constraints =
        [(Constraint Linear)\<lparr>c_terms := Some [Term ''x'' 1], c_op := Some OpEq,
           c_rhs := Some 0\<rparr>,
         (Constraint Linear)\<lparr>c_terms := Some [Term ''x'' 1], c_op := Some OpEq,
           c_rhs := Some 1\<rparr>],
      req_objective = None, req_options = None\<rparr>
   = \<lparr>resp_status = ''INFEASIBLE'', resp_values = None, resp_statistics = None,
      resp_error = None, resp_solutionInfo = Some ''infeasible'',
      resp_softViolations = None\<rparr>
   \<and> status_text 7 = ''ERROR''"
proof -
  let ?req = "\<lparr>req_variables = [Variable VBool ''x''],
      req_constraints =
        [(Constraint Linear)\<lparr>c_terms := Some [Term ''x'' 1], c_op := Some OpEq,
           c_rhs := Some 0\<rparr>,
         (Constraint Linear)\<lparr>c_terms := Some [Term ''x'' 1], c_op := Some OpEq,
           c_rhs := Some 1\<rparr>],
      req_objective = None, req_options = None\<rparr>"
  let ?solve = "answer INFEASIBLE (\<lambda>h. 0) ''infeasible''"
  let ?b = "\<lparr>b_model =
        \<lparr>m_variables = [\<lparr>iv_lb = 0, iv_ub = 1, iv_name = ''x''\<rparr>], m_intervals = [],
         m_constraints =
           [AddEq (Add (Const 0) (Mul (Var 0) 1)) (Const 0),
            AddEq (Add (Const 0) (Mul (Var 0) 1)) (Const 1)],
         m_objective = None\<rparr>,
      b_vars_map = [(''x'', 0)], b_tracked = [], b_has_objective = False\<rparr>"
  let ?res = "\<lparr>raw_status = INFEASIBLE, solver_value = (\<lambda>h. 0), solution_info = ''infeasible'',
      wall_time = 0, num_conflicts = 0, num_branches = 0, objective_value = 0,
      best_objective_bound = 0\<rparr>"
  have built: "build_model ?req = Inr ?b"
    by (simp add: build_model_def collect_bounds_def Variable_def Constraint_def Term_def
        CpModel_def create_variable_def NewBoolVar_def NewIntVar_def compile_constraint_def keep_lists_def
        add_linear_constraint_def sum_terms_def model_Add_def build_objective_def)
  have run: "run_solver ?solve ?req (b_model ?b) = Inr ?res"
    by (simp add: run_solver_def answer_def)
  have st: "raw_status ?res \<noteq> OPTIMAL \<and> raw_status ?res \<noteq> FEASIBLE"
    by (simp add: INFEASIBLE_def OPTIMAL_def FEASIBLE_def)
  have seven: "(7::int) \<noteq> OPTIMAL \<and> 7 \<noteq> FEASIBLE \<and> 7 \<noteq> INFEASIBLE \<and> 7 \<noteq> MODEL_INVALID
      \<and> 7 \<noteq> UNKNOWN"
    by (simp add: INFEASIBLE_def OPTIMAL_def FEASIBLE_def MODEL_INVALID_def UNKNOWN_def)
  note main = status_mapping_and_failure_response [of ?req ?solve id]
  from main have tab: "status_text INFEASIBLE = ''INFEASIBLE''" by (elim conjE)
  from main have other: "\<forall>st. st \<noteq> OPTIMAL \<and> st \<noteq> FEASIBLE \<and> st \<noteq> INFEASIBLE
      \<and> st \<noteq> MODEL_INVALID \<and> st \<noteq> UNKNOWN \<longrightarrow> status_text st = ''ERROR''"
    by (elim conjE)
  from main have resp: "\<forall>b res. build_model ?req = Inr b
         \<and> run_solver ?solve ?req (b_model b) = Inr res
         \<and> raw_status res \<noteq> OPTIMAL \<and> raw_status res \<noteq> FEASIBLE \<longrightarrow>
       solve_request id ?solve ?req =
         \<lparr>resp_status = status_text (raw_status res), resp_values = None,
          resp_statistics = None, resp_error = None,
          resp_solutionInfo =
            (if solution_info res = [] then None else Some (solution_info res)),
          resp_softViolations = None\<rparr>"
    by (elim conjE)
  have "solve_request id ?solve ?req =
         \<lparr>resp_status = status_text (raw_status ?res), resp_values = None,
          resp_statistics = None, resp_error = None,
          resp_solutionInfo =
            (if solution_info ?res = [] then None else Some (solution_info ?res)),
          resp_softViolations = None\<rparr>"
    using resp [rule_format, of ?b ?res] built run st by blast
  then show ?thesis
    using tab other [rule_format, OF seven] by simp
qed








subsection \<open>Bounds and variable creation\<close>

lemma set_update_subset: "set (AList.update k v al) \<subseteq> insert (k, v) (set al)"
  by (induction al) auto







subsection \<open>The variable loop\<close>

lemma create_variables_scalar:
  assumes "var_type v = VBool \<or> var_type v = VInt \<and> var_min v \<noteq> None \<and> var_max v \<noteq> None"
  shows "create_variables m vm im (v # rest) =
    create_variables (m\<lparr>m_variables := m_variables m @ [native_of v]\<rparr>)
      (AList.update (var_name v) (length (m_variables m)) vm) im rest"
  using assms by (auto simp add: create_variable_def NewBoolVar_def NewIntVar_def native_of_def)

lemma create_variables_int_missing:
  "var_type v = VInt \<Longrightarrow> var_min v = None \<or> var_max v = None \<Longrightarrow>
   create_variables m vm im (v # rest) =
     Inl (ValueError (''Int variable '' @ var_name v @ '' requires min and max''))"
  by (auto simp add: create_variable_def)

lemma create_variables_interval_missing:
  "var_type v = VInterval \<Longrightarrow> var_start v = None \<or> var_end v = None \<or> var_size v = None \<Longrightarrow>
   create_variables m vm im (v # rest) =
     Inl (ValueError
       (''Interval variable '' @ var_name v @ '' requires start, end, and size''))"
  by (auto simp add: create_variable_def)


lemma create_variables_interval_plain:
  "var_type v = VInterval \<Longrightarrow> var_start v = Some s \<Longrightarrow> var_end v = Some e \<Longrightarrow>
   var_size v = Some z \<Longrightarrow> e - s = z \<Longrightarrow> var_presenceVar v = None \<Longrightarrow>
   create_variables m vm im (v # rest) =
     create_variables
       (m\<lparr>m_intervals := m_intervals m @
           [\<lparr>itv_start = s, itv_size = z, itv_end = e, itv_presence = None,
             itv_name = var_name v\<rparr>]\<rparr>)
       vm (AList.update (var_name v) (length (m_intervals m)) im) rest"
  by (simp add: create_variable_def NewIntervalVar_def)


lemma create_variables_interval_optional:
  "var_type v = VInterval \<Longrightarrow> var_start v = Some s \<Longrightarrow> var_end v = Some e \<Longrightarrow>
   var_size v = Some z \<Longrightarrow> e - s = z \<Longrightarrow> var_presenceVar v = Some p \<Longrightarrow>
   map_of vm p = Some h \<Longrightarrow>
   create_variables m vm im (v # rest) =
     create_variables
       (m\<lparr>m_intervals := m_intervals m @
           [\<lparr>itv_start = s, itv_size = z, itv_end = e, itv_presence = Some h,
             itv_name = var_name v\<rparr>]\<rparr>)
       vm (AList.update (var_name v) (length (m_intervals m)) im) rest"
  by (simp add: create_variable_def NewOptionalIntervalVar_def)

text \<open>One round of the loop that does not raise: what the next round starts from.\<close>

lemma create_variables_step:
  assumes "create_variables m vm im (v # rest) = Inr r"
  shows "\<exists>m1 im1.
      create_variables m1
        (if var_type v = VInterval then vm
         else AList.update (var_name v) (length (m_variables m)) vm) im1 rest = Inr r
      \<and> m_variables m1 =
          m_variables m @ (if var_type v = VInterval then [] else [native_of v])
      \<and> m_constraints m1 = m_constraints m \<and> m_objective m1 = m_objective m"
proof (cases "var_type v")
  case VBool
  then show ?thesis
    using assms create_variables_scalar [of v m vm im rest] by (intro exI) auto
next
  case VInt
  with assms have "var_min v \<noteq> None \<and> var_max v \<noteq> None"
    by (auto simp add: create_variable_def split: if_splits)
  with VInt show ?thesis
    using assms create_variables_scalar [of v m vm im rest] by (intro exI) auto
next
  case VInterval
  with assms obtain s e z where sez: "var_start v = Some s" "var_end v = Some e"
    "var_size v = Some z" "e - s = z"
    by (auto simp add: create_variable_def split: if_splits)
  show ?thesis
  proof (cases "var_presenceVar v")
    case None
    from create_variables_interval_plain [OF VInterval sez None, of m vm im rest] assms
      VInterval
    show ?thesis by (intro exI) auto
  next
    case (Some p)
    with assms VInterval sez obtain h where h: "map_of vm p = Some h"
      by (cases "map_of vm p") (auto simp add: create_variable_def)
    from create_variables_interval_optional [OF VInterval sez Some h, of m im rest] assms
      VInterval
    show ?thesis by (intro exI) auto
  qed
qed

lemma scalars_Cons:
  "scalars (v # vs) = (if var_type v = VInterval then scalars vs else v # scalars vs)"
  by (simp add: scalars_def)

lemma create_variables_model:
  "create_variables m vm im vs = Inr (m', vm', im') \<Longrightarrow>
   m_variables m' = m_variables m @ map native_of (scalars vs)
   \<and> m_constraints m' = m_constraints m \<and> m_objective m' = m_objective m"
proof (induction vs arbitrary: m vm im)
  case Nil
  then show ?case by (simp add: scalars_def)
next
  case (Cons v vs)
  from create_variables_step [OF Cons.prems] obtain m1 im1 vm1 where
    step: "create_variables m1 vm1 im1 vs = Inr (m', vm', im')"
      "m_variables m1 =
         m_variables m @ (if var_type v = VInterval then [] else [native_of v])"
      "m_constraints m1 = m_constraints m" "m_objective m1 = m_objective m"
    by blast
  from Cons.IH [OF step(1)] step(2-4) show ?case
    by (simp add: scalars_Cons)
qed

lemma create_variables_keys:
  "create_variables m vm im vs = Inr (m', vm', im') \<Longrightarrow>
   fst ` set vm' = fst ` set vm \<union> var_name ` set (scalars vs)"
proof (induction vs arbitrary: m vm im)
  case Nil
  then show ?case by (simp add: scalars_def)
next
  case (Cons v vs)
  from create_variables_step [OF Cons.prems] obtain m1 im1 where
    step: "create_variables m1
        (if var_type v = VInterval then vm
         else AList.update (var_name v) (length (m_variables m)) vm) im1 vs
        = Inr (m', vm', im')"
    by blast
  from Cons.IH [OF step] show ?case
    by (auto simp add: scalars_Cons dom_update split: if_splits)
qed

lemma create_variables_distinct:
  "create_variables m vm im vs = Inr (m', vm', im') \<Longrightarrow> distinct (map fst vm) \<Longrightarrow>
   distinct (map fst vm')"
proof (induction vs arbitrary: m vm im)
  case Nil
  then show ?case by simp
next
  case (Cons v vs)
  from create_variables_step [OF Cons.prems(1)] obtain m1 im1 where
    step: "create_variables m1
        (if var_type v = VInterval then vm
         else AList.update (var_name v) (length (m_variables m)) vm) im1 vs
        = Inr (m', vm', im')"
    by blast
  have "distinct (map fst (if var_type v = VInterval then vm
         else AList.update (var_name v) (length (m_variables m)) vm))"
    using Cons.prems(2) by (simp add: distinct_update)
  from Cons.IH [OF step this] show ?case .
qed

lemma create_variables_handles:
  "create_variables m vm im vs = Inr (m', vm', im') \<Longrightarrow> (n, h) \<in> set vm' \<Longrightarrow>
   (n, h) \<in> set vm
   \<or> (length (m_variables m) \<le> h \<and> h - length (m_variables m) < length (scalars vs)
       \<and> var_name (scalars vs ! (h - length (m_variables m))) = n)"
proof (induction vs arbitrary: m vm im)
  case Nil
  then show ?case by simp
next
  case (Cons v vs)
  from create_variables_step [OF Cons.prems(1)] obtain m1 im1 where
    step: "create_variables m1
        (if var_type v = VInterval then vm
         else AList.update (var_name v) (length (m_variables m)) vm) im1 vs
        = Inr (m', vm', im')"
    and vars: "m_variables m1 =
         m_variables m @ (if var_type v = VInterval then [] else [native_of v])"
    by blast
  note ih = Cons.IH [OF step Cons.prems(2)]
  show ?case
  proof (cases "var_type v = VInterval")
    case True
    with ih vars show ?thesis by (simp add: scalars_Cons)
  next
    case False
    let ?L = "length (m_variables m)"
    from False vars have len: "length (m_variables m1) = Suc ?L" by simp
    from ih False consider
      (old) "(n, h) \<in> set (AList.update (var_name v) ?L vm)"
      | (new) "Suc ?L \<le> h" "h - Suc ?L < length (scalars vs)"
          "var_name (scalars vs ! (h - Suc ?L)) = n"
      using len by auto
    then show ?thesis
    proof cases
      case old
      with set_update_subset [of "var_name v" ?L vm]
      have "(n, h) = (var_name v, ?L) \<or> (n, h) \<in> set vm" by auto
      with False show ?thesis by (auto simp add: scalars_Cons)
    next
      case new
      from new(1) have "h - ?L = Suc (h - Suc ?L)" by simp
      with new False show ?thesis by (simp add: scalars_Cons)
    qed
  qed
qed

lemma update_fresh: "k \<notin> fst ` set al \<Longrightarrow> AList.update k v al = al @ [(k, v)]"
  by (induction al) auto

lemma create_variables_key_list:
  "create_variables m vm im vs = Inr (m', vm', im') \<Longrightarrow>
   distinct (map fst vm @ map var_name (scalars vs)) \<Longrightarrow>
   map fst vm' = map fst vm @ map var_name (scalars vs)"
proof (induction vs arbitrary: m vm im)
  case Nil
  then show ?case by (simp add: scalars_def)
next
  case (Cons v vs)
  from create_variables_step [OF Cons.prems(1)] obtain m1 im1 where
    step: "create_variables m1
        (if var_type v = VInterval then vm
         else AList.update (var_name v) (length (m_variables m)) vm) im1 vs
        = Inr (m', vm', im')"
    by blast
  show ?case
  proof (cases "var_type v = VInterval")
    case True
    with Cons.IH [OF step] Cons.prems(2) show ?thesis by (simp add: scalars_Cons)
  next
    case False
    with Cons.prems(2) have fresh: "var_name v \<notin> fst ` set vm"
      by (auto simp add: scalars_Cons)
    have upd: "AList.update (var_name v) (length (m_variables m)) vm
        = vm @ [(var_name v, length (m_variables m))]"
      using fresh by (rule update_fresh)
    from False Cons.prems(2) have
      "distinct (map fst (vm @ [(var_name v, length (m_variables m))])
         @ map var_name (scalars vs))"
      by (auto simp add: scalars_Cons)
    with Cons.IH [OF step] False upd show ?thesis by (simp add: scalars_Cons)
  qed
qed







subsection \<open>The constraint loop\<close>

lemma sum_terms_from_Inr_known:
  "sum_terms_from acc vm ts = Inr e \<Longrightarrow> \<forall>t\<in>set ts. map_of vm (term_var t) \<noteq> None"
  by (induction ts arbitrary: acc) (auto split: option.splits)

lemma expression_range_Inr:
  assumes "expression_range ts bounds = Inr r"
  shows "r = (spec_min_expr bounds ts, spec_max_expr bounds ts)"
proof -
  from assms have "\<forall>t\<in>set ts. map_of bounds (term_var t) \<noteq> None"
    unfolding expression_range_def by (rule expression_range_from_Inr_known)
  from expression_range_known [OF this] assms show ?thesis by simp
qed

text \<open>What a successful call of the soft-linear handler has done.\<close>

lemma add_soft_linear_constraint_Inr:
  assumes "add_soft_linear_constraint m c vm bounds pts trk k = Inr (m', pts', trk')"
  shows "m_variables m' = m_variables m @
          [\<lparr>iv_lb = 0, iv_ub = spec_max_violation bounds c,
            iv_name = ''violation_'' @ soft_constraint_id c k\<rparr>]
    \<and> pts' = (if 0 < spec_max_violation bounds c
              then pts @ [Mul (Var (length (m_variables m))) (the (c_penalty c))] else pts)
    \<and> trk' = (if 0 < spec_max_violation bounds c \<and> c_id c \<noteq> None
              then trk @ [\<lparr>constraint_id = soft_constraint_id c k,
                           violation_var = length (m_variables m),
                           target_value = the (c_rhs c), comparator = the (c_op c),
                           terms = the (c_terms c)\<rparr>]
              else trk)
    \<and> c_terms c \<noteq> None \<and> c_rhs c \<noteq> None \<and> c_op c \<noteq> None \<and> c_penalty c \<noteq> None
    \<and> (\<forall>t\<in>set (the (c_terms c)). map_of vm (term_var t) \<noteq> None)"
proof -
  from assms obtain ts rhs p op where fields: "c_terms c = Some ts" "ts \<noteq> []"
    "c_rhs c = Some rhs" "c_penalty c = Some p" "c_op c = Some op"
    by (auto simp add: add_soft_linear_constraint_def split: if_splits)
  from assms fields obtain r where range0: "expression_range ts bounds = Inr r"
    by (cases "expression_range ts bounds")
      (auto simp add: add_soft_linear_constraint_def)
  from expression_range_Inr [OF range0] range0
  have range: "expression_range ts bounds = Inr (spec_min_expr bounds ts, spec_max_expr bounds ts)"
    by simp
  from assms fields range obtain expr where expr: "sum_terms vm ts = Inr expr"
    by (cases "sum_terms vm ts") (auto simp add: add_soft_linear_constraint_def)
  from expr have known: "\<forall>t\<in>set ts. map_of vm (term_var t) \<noteq> None"
    unfolding sum_terms_def by (rule sum_terms_from_Inr_known)
  show ?thesis
  proof (cases op)
    case OpLe
    with fields have op: "c_op c = Some OpLe" by simp
    have mv: "spec_max_violation bounds c = max 0 (spec_max_expr bounds ts - rhs)"
      using fields(1,3) op by (simp add: spec_max_violation_def)
    from add_soft_linear_constraint_le [OF fields(1-4) op range expr, of m pts trk k] assms
      fields known mv op
    show ?thesis by auto
  next
    case OpGe
    with fields have op: "c_op c = Some OpGe" by simp
    have mv: "spec_max_violation bounds c = max 0 (rhs - spec_min_expr bounds ts)"
      using fields(1,3) op by (simp add: spec_max_violation_def)
    from add_soft_linear_constraint_ge [OF fields(1-4) op range expr, of m pts trk k] assms
      fields known mv op
    show ?thesis by auto
  next
    case OpEq
    with assms fields range expr show ?thesis
      by (simp add: add_soft_linear_constraint_def Let_def)
  qed
qed

lemma handlers_keep_variables:
  "add_linear_constraint m c vm = Inr m' \<Longrightarrow> m_variables m' = m_variables m"
  "add_exactly_one m c vm = Inr m' \<Longrightarrow> m_variables m' = m_variables m"
  "add_at_most_one m c vm = Inr m' \<Longrightarrow> m_variables m' = m_variables m"
  "add_implication m c vm = Inr m' \<Longrightarrow> m_variables m' = m_variables m"
  "add_bool_or m c vm = Inr m' \<Longrightarrow> m_variables m' = m_variables m"
  "add_bool_and m c vm = Inr m' \<Longrightarrow> m_variables m' = m_variables m"
  "add_no_overlap m c im = Inr m' \<Longrightarrow> m_variables m' = m_variables m"
  by (auto simp add: add_linear_constraint_def add_exactly_one_def add_at_most_one_def
      add_implication_def add_bool_or_def add_bool_and_def add_no_overlap_def model_Add_def
      split: if_splits sum.splits option.splits cmp_op.splits)

lemma keep_lists_Inr:
  "keep_lists pts trk k r = Inr (m', pts', trk', k') \<Longrightarrow>
   r = Inr m' \<and> pts' = pts \<and> trk' = trk \<and> k' = k"
  by (cases r) (simp_all add: keep_lists_def)

lemma tracks_mono:
  "tracks vars base bounds vm t c \<Longrightarrow> base' \<le> base \<Longrightarrow>
   tracks (vars @ extra) base' bounds vm t c"
  by (simp add: tracks_def nth_append)

lemma compile_constraint_hard:
  assumes "compile_constraint vm im bounds (m, pts, trk, k) c = Inr (m', pts', trk', k')"
    and "c_type c \<noteq> SoftLinear"
  shows "m_variables m' = m_variables m \<and> pts' = pts \<and> trk' = trk \<and> k' = k"
  using assms
  by (cases "c_type c")
    (auto simp add: compile_constraint_def dest!: keep_lists_Inr
      dest: handlers_keep_variables)

lemma compile_constraint_soft:
  assumes "compile_constraint vm im bounds (m, pts, trk, k) c = Inr (m', pts', trk', k')"
    and "c_type c = SoftLinear"
  shows "add_soft_linear_constraint m c vm bounds pts trk k = Inr (m', pts', trk')"
  using assms by (auto simp add: compile_constraint_def split: sum.splits)

lemma compile_constraint_tracks:
  assumes "compile_constraint vm im bounds (m, pts, trk, k) c = Inr (m', pts', trk', k')"
  shows "(\<exists>new. m_variables m' = m_variables m @ new)
    \<and> (\<exists>tn. trk' = trk @ tn
         \<and> list_all2 (tracks (m_variables m') (length (m_variables m)) bounds vm) tn
             (filter (trackable bounds) [c]))"
proof (cases "c_type c = SoftLinear")
  case False
  from compile_constraint_hard [OF assms False] False show ?thesis
    by (simp add: trackable_def)
next
  case True
  note soft = add_soft_linear_constraint_Inr [OF compile_constraint_soft [OF assms True]]
  show ?thesis
  proof (cases "0 < spec_max_violation bounds c \<and> c_id c \<noteq> None")
    case False
    with soft True show ?thesis by (auto simp add: trackable_def)
  next
    case yes: True
    let ?t = "\<lparr>constraint_id = soft_constraint_id c k,
                violation_var = length (m_variables m),
                target_value = the (c_rhs c), comparator = the (c_op c),
                terms = the (c_terms c)\<rparr>"
    from soft yes have trk': "trk' = trk @ [?t]" by simp
    have "tracks (m_variables m') (length (m_variables m)) bounds vm ?t c"
      using soft yes by (auto simp add: tracks_def soft_constraint_id_def)
    with trk' soft yes True show ?thesis by (simp add: trackable_def)
  qed
qed

lemma compile_constraints_tracks:
  "compile_constraints vm im bounds (m, pts, trk, k) cs = Inr (m', pts', trk', k') \<Longrightarrow>
   (\<exists>new. m_variables m' = m_variables m @ new)
   \<and> (\<exists>tn. trk' = trk @ tn
        \<and> list_all2 (tracks (m_variables m') (length (m_variables m)) bounds vm) tn
            (filter (trackable bounds) cs))"
proof (induction cs arbitrary: m pts trk k)
  case Nil
  then show ?case by simp
next
  case (Cons c cs)
  from Cons.prems obtain m1 pts1 trk1 k1 where
    one: "compile_constraint vm im bounds (m, pts, trk, k) c = Inr (m1, pts1, trk1, k1)"
    and rest: "compile_constraints vm im bounds (m1, pts1, trk1, k1) cs
        = Inr (m', pts', trk', k')"
    by (auto split: sum.splits)
  from compile_constraint_tracks [OF one] obtain new1 tn1 where
    s1: "m_variables m1 = m_variables m @ new1" "trk1 = trk @ tn1"
      "list_all2 (tracks (m_variables m1) (length (m_variables m)) bounds vm) tn1
         (filter (trackable bounds) [c])"
    by blast
  from Cons.IH [OF rest] obtain new2 tn2 where
    s2: "m_variables m' = m_variables m1 @ new2" "trk' = trk1 @ tn2"
      "list_all2 (tracks (m_variables m') (length (m_variables m1)) bounds vm) tn2
         (filter (trackable bounds) cs)"
    by blast
  have l1: "list_all2 (tracks (m_variables m') (length (m_variables m)) bounds vm) tn1
      (filter (trackable bounds) [c])"
    using s1(3) s2(1) by (auto elim!: list_all2_mono intro: tracks_mono)
  have l2: "list_all2 (tracks (m_variables m') (length (m_variables m)) bounds vm) tn2
      (filter (trackable bounds) cs)"
    using s2(3) s1(1) tracks_mono [where extra = "[]"]
    by (auto elim!: list_all2_mono)
  have eq: "filter (trackable bounds) [c] @ filter (trackable bounds) cs
      = filter (trackable bounds) (c # cs)"
    by simp
  have "list_all2 (tracks (m_variables m') (length (m_variables m)) bounds vm) (tn1 @ tn2)
      (filter (trackable bounds) [c] @ filter (trackable bounds) cs)"
    using l1 l2 by (rule list_all2_appendI)
  then have all: "list_all2 (tracks (m_variables m') (length (m_variables m)) bounds vm)
      (tn1 @ tn2) (filter (trackable bounds) (c # cs))"
    unfolding eq .
  have "m_variables m' = m_variables m @ (new1 @ new2)" using s1(1) s2(1) by simp
  moreover have "trk' = trk @ (tn1 @ tn2)" using s1(2) s2(2) by simp
  ultimately show ?case using all by blast
qed

lemma build_objective_keeps_variables:
  "build_objective m objective vm pts = Inr (m', has) \<Longrightarrow> m_variables m' = m_variables m"
  by (auto simp add: build_objective_def Let_def model_Minimize_def model_Maximize_def
      split: option.splits sum.splits if_splits)

lemma build_model_parts:
  assumes "build_model request = Inr b"
  shows "\<exists>bounds m1 im m2 pts k.
      collect_bounds (req_variables request) = Inr bounds
      \<and> create_variables CpModel [] [] (req_variables request) = Inr (m1, b_vars_map b, im)
      \<and> compile_constraints (b_vars_map b) im bounds (m1, [], [], 0)
            (req_constraints request) = Inr (m2, pts, b_tracked b, k)
      \<and> build_objective m2 (req_objective request) (b_vars_map b) pts
          = Inr (b_model b, b_has_objective b)"
  using assms by (auto simp add: build_model_def split: sum.splits prod.splits)

text \<open>
  What holds of every model that was built: its variables are those of the declared
  scalars, in order, followed by the slack variables; \<open>vars_map\<close> only holds handles
  of declared scalars; the tracked entries are the trackable constraints, in order.
\<close>

lemma build_model_invariants:
  assumes "build_model request = Inr b"
    and "collect_bounds (req_variables request) = Inr bounds"
  shows "\<exists>slack. m_variables (b_model b)
        = map native_of (scalars (req_variables request)) @ slack"
    and "fst ` set (b_vars_map b) = var_name ` set (scalars (req_variables request))"
    and "distinct (map fst (b_vars_map b))"
    and "(n, h) \<in> set (b_vars_map b) \<Longrightarrow>
          h < length (scalars (req_variables request))
          \<and> var_name (scalars (req_variables request) ! h) = n"
    and "distinct (map var_name (scalars (req_variables request))) \<Longrightarrow>
          map fst (b_vars_map b) = map var_name (scalars (req_variables request))"
    and "list_all2
          (tracks (m_variables (b_model b)) (length (scalars (req_variables request)))
             bounds (b_vars_map b))
          (b_tracked b) (filter (trackable bounds) (req_constraints request))"
proof -
  let ?vs = "req_variables request"
  from build_model_parts [OF assms(1)] assms(2) obtain m1 im m2 pts k where
    cv: "create_variables CpModel [] [] ?vs = Inr (m1, b_vars_map b, im)"
    and cc: "compile_constraints (b_vars_map b) im bounds (m1, [], [], 0)
            (req_constraints request) = Inr (m2, pts, b_tracked b, k)"
    and bo: "build_objective m2 (req_objective request) (b_vars_map b) pts
          = Inr (b_model b, b_has_objective b)"
    by auto
  from create_variables_model [OF cv]
  have m1: "m_variables m1 = map native_of (scalars ?vs)" by (simp add: CpModel_def)
  from compile_constraints_tracks [OF cc] obtain new where
    m2: "m_variables m2 = m_variables m1 @ new"
    and trk: "list_all2 (tracks (m_variables m2) (length (m_variables m1)) bounds
        (b_vars_map b)) (b_tracked b) (filter (trackable bounds) (req_constraints request))"
    by auto
  from build_objective_keeps_variables [OF bo]
  have m3: "m_variables (b_model b) = m_variables m2" .
  from m1 m2 m3 show "\<exists>slack. m_variables (b_model b) = map native_of (scalars ?vs) @ slack"
    by simp
  from create_variables_keys [OF cv]
  show "fst ` set (b_vars_map b) = var_name ` set (scalars ?vs)" by simp
  from create_variables_distinct [OF cv] show "distinct (map fst (b_vars_map b))" by simp
  show "h < length (scalars ?vs) \<and> var_name (scalars ?vs ! h) = n"
    if "(n, h) \<in> set (b_vars_map b)"
    using create_variables_handles [OF cv that] by (simp add: CpModel_def)
  show "map fst (b_vars_map b) = map var_name (scalars ?vs)"
    if "distinct (map var_name (scalars ?vs))"
    using create_variables_key_list [OF cv] that by simp
  from trk m1 m3 show "list_all2
      (tracks (m_variables (b_model b)) (length (scalars ?vs)) bounds (b_vars_map b))
      (b_tracked b) (filter (trackable bounds) (req_constraints request))"
    by simp
qed

subsection \<open>Reading the answer\<close>

lemma actual_value_from_known:
  "\<forall>tm\<in>set ts. map_of vm (term_var tm) \<noteq> None \<Longrightarrow>
   actual_value_from acc res vm ts =
     Inr (acc + (\<Sum>tm\<leftarrow>ts. solver_value res (the (map_of vm (term_var tm))) * term_coeff tm))"
  by (induction ts arbitrary: acc) (auto simp add: algebra_simps)

lemma soft_violations_from_known:
  "\<forall>t\<in>set trk. \<forall>tm\<in>set (terms t). map_of vm (term_var tm) \<noteq> None \<Longrightarrow>
   soft_violations_from acc res vm trk =
     Inr (acc @ map (violation_of res vm)
                  (filter (\<lambda>t. 0 < solver_value res (violation_var t)) trk))"
proof (induction trk arbitrary: acc)
  case Nil
  then show ?case by simp
next
  case (Cons t trk)
  from Cons.prems have head: "\<forall>tm\<in>set (terms t). map_of vm (term_var tm) \<noteq> None"
    and rest: "\<forall>t\<in>set trk. \<forall>tm\<in>set (terms t). map_of vm (term_var tm) \<noteq> None"
    by simp_all
  show ?case
    using Cons.IH [OF rest] actual_value_from_known [OF head, of 0 res]
    by (simp add: Let_def violation_of_def)
qed

lemma list_all2_tracks_resolvable:
  "list_all2 (tracks vars base bounds vm) trk cs \<Longrightarrow>
   \<forall>t\<in>set trk. \<forall>tm\<in>set (terms t). map_of vm (term_var tm) \<noteq> None"
  by (induction rule: list_all2_induct) (auto simp add: tracks_def)

lemma build_model_resolvable:
  assumes "build_model request = Inr b"
  shows "\<forall>t\<in>set (b_tracked b). \<forall>tm\<in>set (terms t). map_of (b_vars_map b) (term_var tm) \<noteq> None"
proof -
  from build_model_parts [OF assms] obtain bounds where
    "collect_bounds (req_variables request) = Inr bounds" by blast
  from build_model_invariants(6) [OF assms this] show ?thesis
    by (rule list_all2_tracks_resolvable)
qed

text \<open>The response to an optimal or feasible answer.\<close>

lemma extract_response_success:
  assumes "raw_status res = OPTIMAL \<or> raw_status res = FEASIBLE"
    and "\<forall>t\<in>set (b_tracked b). \<forall>tm\<in>set (terms t). map_of (b_vars_map b) (term_var tm) \<noteq> None"
  shows "extract_response b res =
    Inr \<lparr>resp_status = status_text (raw_status res),
         resp_values = Some (map (\<lambda>(name, var). (name, solver_value res var)) (b_vars_map b)),
         resp_statistics =
           Some ([(''solveTimeMs'', IntStat (py_int (wall_time res * 1000))),
                  (''conflicts'', IntStat (num_conflicts res)),
                  (''branches'', IntStat (num_branches res))]
                 @ (if b_has_objective b
                    then [(''objectiveValue'', FloatStat (objective_value res)),
                          (''bestObjectiveBound'', FloatStat (best_objective_bound res))]
                    else [])),
         resp_error = None, resp_solutionInfo = None,
         resp_softViolations =
           (if map (violation_of res (b_vars_map b))
                 (filter (\<lambda>t. 0 < solver_value res (violation_var t)) (b_tracked b)) = []
            then None
            else Some (map (violation_of res (b_vars_map b))
                 (filter (\<lambda>t. 0 < solver_value res (violation_var t)) (b_tracked b))))\<rparr>"
proof -
  have sv: "soft_violations_from [] res (b_vars_map b) (b_tracked b) =
      Inr (map (violation_of res (b_vars_map b))
             (filter (\<lambda>t. 0 < solver_value res (violation_var t)) (b_tracked b)))"
    using soft_violations_from_known [OF assms(2), of "[]" res] by simp
  have st: "\<not> (raw_status res \<noteq> OPTIMAL \<and> raw_status res \<noteq> FEASIBLE)"
    using assms(1) by blast
  show ?thesis
    unfolding extract_response_def Let_def sv if_not_P [OF st] sum.case ..
qed

lemma solve_request_success:
  assumes "build_model request = Inr b"
    and "run_solver solve request (b_model b) = Inr res"
    and "raw_status res = OPTIMAL \<or> raw_status res = FEASIBLE"
  shows "resp_status (solve_request py_repr solve request) = status_text (raw_status res)"
    and "resp_values (solve_request py_repr solve request) =
          Some (map (\<lambda>(name, var). (name, solver_value res var)) (b_vars_map b))"
    and "resp_error (solve_request py_repr solve request) = None"
    and "violation_list (solve_request py_repr solve request) =
          map (violation_of res (b_vars_map b))
            (filter (\<lambda>t. 0 < solver_value res (violation_var t)) (b_tracked b))"
    and "resp_softViolations (solve_request py_repr solve request) = None \<longleftrightarrow>
          violation_list (solve_request py_repr solve request) = []"
proof -
  note ex = extract_response_success [OF assms(3) build_model_resolvable [OF assms(1)]]
  have eq: "solve_request py_repr solve request = projr (extract_response b res)"
    using assms(1,2) ex by (simp add: solve_request_def solve_request_try_def)
  show "resp_status (solve_request py_repr solve request) = status_text (raw_status res)"
    unfolding eq ex by simp
  show "resp_values (solve_request py_repr solve request) =
          Some (map (\<lambda>(name, var). (name, solver_value res var)) (b_vars_map b))"
    unfolding eq ex by simp
  show "resp_error (solve_request py_repr solve request) = None"
    unfolding eq ex by simp
  show "violation_list (solve_request py_repr solve request) =
          map (violation_of res (b_vars_map b))
            (filter (\<lambda>t. 0 < solver_value res (violation_var t)) (b_tracked b))"
    unfolding eq ex by (simp add: violation_list_def)
  show "resp_softViolations (solve_request py_repr solve request) = None \<longleftrightarrow>
          violation_list (solve_request py_repr solve request) = []"
    unfolding eq ex by (simp add: violation_list_def)
qed


subsection \<open>Violation records and the constraints they come from\<close>




subsection \<open>The two concrete requests, evaluated\<close>

lemmas eval_defs =
  build_model_def collect_bounds_def create_variable_def compile_constraint_def keep_lists_def
  add_linear_constraint_def add_soft_linear_constraint_def soft_constraint_id_def
  expression_range_def term_range_def sum_terms_def build_objective_def
  NewBoolVar_def NewIntVar_def NewIntervalVar_def NewOptionalIntervalVar_def model_Add_def
  model_Minimize_def model_Maximize_def CpModel_def Variable_def Constraint_def Term_def
  str_nat.simps digit_char_def Let_def


lemma roster_build:
  "build_model roster_request =
     Inr \<lparr>b_model =
        \<lparr>m_variables =
           [\<lparr>iv_lb = 0, iv_ub = 1, iv_name = ''x''\<rparr>,
            \<lparr>iv_lb = 0, iv_ub = 5, iv_name = ''y''\<rparr>,
            \<lparr>iv_lb = 0, iv_ub = 3, iv_name = ''violation_cap''\<rparr>,
            \<lparr>iv_lb = 0, iv_ub = 0, iv_name = ''violation_idle''\<rparr>],
         m_intervals =
           [\<lparr>itv_start = 0, itv_size = 5, itv_end = 5, itv_presence = Some 0,
             itv_name = ''s''\<rparr>],
         m_constraints =
           [AddEq (Add (Const 0) (Mul (Var 0) 1)) (Const 1),
            AddLe (Add (Const 0) (Mul (Var 1) 1)) (Add (Const 2) (Var 2)),
            AddLe (Add (Const 0) (Mul (Var 0) 1)) (Add (Const 1) (Var 3))],
         m_objective = Some (Minimize (Mul (Var 2) 1))\<rparr>,
       b_vars_map = [(''x'', 0), (''y'', 1)],
       b_tracked =
         [\<lparr>constraint_id = ''cap'', violation_var = 2, target_value = 2,
           comparator = OpLe, terms = [Term ''y'' 1]\<rparr>],
       b_has_objective = True\<rparr>"
  by (simp add: roster_request_def eval_defs)

lemma roster_run:
  "run_solver roster_answer roster_request model =
     Inr \<lparr>raw_status = FEASIBLE, solver_value = (\<lambda>h. [1, 3, 1, 0] ! h), solution_info = [],
          wall_time = 0, num_conflicts = 0, num_branches = 0, objective_value = 0,
          best_objective_bound = 0\<rparr>"
  by (simp add: run_solver_def roster_answer_def answer_def)

lemma roster_response:
  "solve_request py_repr roster_answer roster_request =
     \<lparr>resp_status = ''FEASIBLE'', resp_values = Some [(''x'', 1), (''y'', 3)],
      resp_statistics =
        Some [(''solveTimeMs'', IntStat 0), (''conflicts'', IntStat 0),
              (''branches'', IntStat 0), (''objectiveValue'', FloatStat 0),
              (''bestObjectiveBound'', FloatStat 0)],
      resp_error = None, resp_solutionInfo = None,
      resp_softViolations =
        Some [\<lparr>constraintId = ''cap'', violationAmount = 1, targetValue = 2,
               actualValue = 3\<rparr>]\<rparr>"
  by (simp add: solve_request_def solve_request_try_def roster_build roster_run
      extract_response_def status_text_def status_map_def FEASIBLE_def OPTIMAL_def
      INFEASIBLE_def MODEL_INVALID_def UNKNOWN_def py_int_def Term_def)

subsection \<open>The value map\<close>

text \<open>
  Claim C10. On a successful solve the response has a value map; its keys are
  distinct and are exactly the names of the declared boolean and integer variables
  (in their order of declaration when these names are distinct); the model's
  variables are those of the declared scalars followed by the slack variables, and
  every entry \<open>(n, x)\<close> is the oracle's value \<open>x\<close> of a handle below the number of
  declared scalars, the handle of a declared scalar named \<open>n\<close>. So no entry belongs
  to an interval or to a slack variable.
\<close>

theorem value_map_of_declared_scalars:
  assumes "build_model request = Inr b"
    and "run_solver solve request (b_model b) = Inr res"
    and "raw_status res = OPTIMAL \<or> raw_status res = FEASIBLE"
  shows "\<exists>vals slack.
      resp_values (solve_request py_repr solve request) = Some vals
      \<and> distinct (map fst vals)
      \<and> fst ` set vals = var_name ` set (scalars (req_variables request))
      \<and> (distinct (map var_name (scalars (req_variables request))) \<longrightarrow>
           map fst vals = map var_name (scalars (req_variables request)))
      \<and> m_variables (b_model b) = map native_of (scalars (req_variables request)) @ slack
      \<and> (\<forall>(n, x)\<in>set vals. \<exists>h < length (scalars (req_variables request)).
             var_name (scalars (req_variables request) ! h) = n \<and> x = solver_value res h)"
proof -
  let ?vs = "scalars (req_variables request)"
  let ?vals = "map (\<lambda>(name, var). (name, solver_value res var)) (b_vars_map b)"
  from build_model_parts [OF assms(1)] obtain bounds where
    bounds: "collect_bounds (req_variables request) = Inr bounds" by blast
  note inv = build_model_invariants [OF assms(1) bounds]
  from inv(1) obtain slack where
    slack: "m_variables (b_model b) = map native_of ?vs @ slack" by blast
  have keys: "map fst ?vals = map fst (b_vars_map b)"
    by (simp add: case_prod_unfold comp_def)
  have v: "resp_values (solve_request py_repr solve request) = Some ?vals"
    by (rule solve_request_success(2) [OF assms])
  have d: "distinct (map fst ?vals)" unfolding keys by (rule inv(3))
  have "set (map fst ?vals) = var_name ` set ?vs"
    unfolding keys using inv(2) by simp
  then have k: "fst ` set ?vals = var_name ` set ?vs"
    by (simp only: set_map)
  have o: "distinct (map var_name ?vs) \<longrightarrow> map fst ?vals = map var_name ?vs"
    unfolding keys using inv(5) by blast
  have e: "\<forall>(n, x)\<in>set ?vals. \<exists>h < length ?vs. var_name (?vs ! h) = n \<and> x = solver_value res h"
    using inv(4) by auto
  from v d k o slack e show ?thesis by blast
qed

text \<open>
  C10 at \<open>roster_request\<close>: the value map has the entries of \<open>x\<close> and \<open>y\<close>; the
  interval \<open>s\<close> and the two slack variables have none.
\<close>

theorem value_map_of_declared_scalars_witness:
  "(\<exists>vals slack.
      resp_values (solve_request id roster_answer roster_request) = Some vals
      \<and> distinct (map fst vals)
      \<and> fst ` set vals = var_name ` set (scalars (req_variables roster_request))
      \<and> (distinct (map var_name (scalars (req_variables roster_request))) \<longrightarrow>
           map fst vals = map var_name (scalars (req_variables roster_request)))
      \<and> m_variables (b_model (projr (build_model roster_request)))
           = map native_of (scalars (req_variables roster_request)) @ slack
      \<and> (\<forall>(n, x)\<in>set vals. \<exists>h < length (scalars (req_variables roster_request)).
             var_name (scalars (req_variables roster_request) ! h) = n
             \<and> x = [1, 3, 1, 0] ! h))
   \<and> resp_values (solve_request id roster_answer roster_request)
       = Some [(''x'', 1), (''y'', 3)]
   \<and> map var_name (scalars (req_variables roster_request)) = [''x'', ''y'']"
proof -
  let ?res = "\<lparr>raw_status = FEASIBLE, solver_value = (\<lambda>h. [1, 3, 1, 0] ! h),
      solution_info = [], wall_time = 0, num_conflicts = 0, num_branches = 0,
      objective_value = 0, best_objective_bound = (0::real)\<rparr>"
  have h1: "build_model roster_request = Inr (projr (build_model roster_request))"
    by (simp add: roster_build)
  have h2: "run_solver roster_answer roster_request
      (b_model (projr (build_model roster_request))) = Inr ?res"
    by (rule roster_run)
  have h3: "raw_status ?res = OPTIMAL \<or> raw_status ?res = FEASIBLE" by simp
  have "map var_name (scalars (req_variables roster_request)) = [''x'', ''y'']"
    by (simp add: roster_request_def scalars_def Variable_def)
  moreover have "resp_values (solve_request id roster_answer roster_request)
       = Some [(''x'', 1), (''y'', 3)]"
    by (simp add: roster_response)
  ultimately show ?thesis
    using value_map_of_declared_scalars [OF h1 h2 h3, of id] by simp
qed

subsection \<open>Soft constraints in the violation list\<close>







subsection \<open>The id of a violation record\<close>

text \<open>
  Claim C4 at its failing input, \<open>empty_id_request\<close>, whose soft constraint carries
  the empty string as its id. The slack value is positive and a record is emitted, but
  its \<open>constraintId\<close> is the synthetic \<open>soft_0\<close>, not the id the caller supplied.
\<close>

theorem empty_id_reported_as_synthetic:
  "c_id (req_constraints empty_id_request ! 1) = Some []
   \<and> resp_softViolations (solve_request py_repr empty_id_answer empty_id_request)
       = Some [\<lparr>constraintId = ''soft_0'', violationAmount = 1, targetValue = 1,
                actualValue = 0\<rparr>]"
proof -
  have b: "build_model empty_id_request =
     Inr \<lparr>b_model =
        \<lparr>m_variables =
           [\<lparr>iv_lb = 0, iv_ub = 1, iv_name = ''x''\<rparr>,
            \<lparr>iv_lb = 0, iv_ub = 1, iv_name = ''violation_soft_0''\<rparr>],
         m_intervals = [],
         m_constraints =
           [AddEq (Add (Const 0) (Mul (Var 0) 1)) (Const 0),
            AddGe (Add (Add (Const 0) (Mul (Var 0) 1)) (Var 1)) (Const 1)],
         m_objective = Some (Minimize (Mul (Var 1) 5))\<rparr>,
       b_vars_map = [(''x'', 0)],
       b_tracked =
         [\<lparr>constraint_id = ''soft_0'', violation_var = 1, target_value = 1,
           comparator = OpGe, terms = [Term ''x'' 1]\<rparr>],
       b_has_objective = True\<rparr>"
    by (simp add: empty_id_request_def eval_defs)
  have "resp_softViolations (solve_request py_repr empty_id_answer empty_id_request)
       = Some [\<lparr>constraintId = ''soft_0'', violationAmount = 1, targetValue = 1,
                actualValue = 0\<rparr>]"
    by (simp add: solve_request_def solve_request_try_def b run_solver_def
        empty_id_answer_def answer_def extract_response_def OPTIMAL_def FEASIBLE_def Term_def)
  moreover have "c_id (req_constraints empty_id_request ! 1) = Some []"
    by (simp add: empty_id_request_def Constraint_def)
  ultimately show ?thesis by blast
qed

end
